theory Spec2Isabelle
  imports Main "HOL-Library.Stream" "HOL-Library.Sublist"
begin

section \<open>gitstr: credential resolution and interactive prompts (helpers.go)\<close>

text \<open>
  A shallow embedding of the credential helpers of \<^verbatim>\<open>helpers.go\<close>:
  \<^verbatim>\<open>gatherSecretKeyOrBunker\<close>, \<^verbatim>\<open>git\<close>, \<^verbatim>\<open>confirm\<close>, \<^verbatim>\<open>promptDecrypt\<close>,
  \<^verbatim>\<open>ask\<close>, \<^verbatim>\<open>askPassword\<close> and \<^verbatim>\<open>_ask\<close>.

  The Go functions talk to the terminal (readline), to the \<^verbatim>\<open>git\<close> executable and to the
  nostr libraries. Everything outside \<^verbatim>\<open>helpers.go\<close> is a collaborator: its mutable part
  is a field of the record \<open>world\<close>, which every function takes and returns, and its
  behaviour is a field of the record \<open>env\<close>, left arbitrary in the theorems (the scenarios
  fix one). Each call of a collaborator is appended to the field \<open>trace\<close> of the world, in
  program order.
\<close>

subsection \<open>Strings\<close>

text \<open>
  Go strings are byte sequences; \<open>string\<close> is a list of 8-bit characters.
  \<^verbatim>\<open>strings.ToLower\<close> and \<^verbatim>\<open>strings.TrimSpace\<close> work on Unicode code points. They are
  collaborators (two fields of the record \<open>env\<close> below), and every theorem holds whatever
  they compute. The two functions defined here say what they compute on ASCII text, which
  is all that the scenarios type: \<open>asciiToLower\<close> maps the letters A to Z,
  \<open>asciiTrimSpace\<close> removes leading and trailing tab, line feed, vertical tab, form feed,
  carriage return and space.
\<close>

definition upperLetters :: string where
  "upperLetters = ''ABCDEFGHIJKLMNOPQRSTUVWXYZ''"

definition lowerLetters :: string where
  "lowerLetters = ''abcdefghijklmnopqrstuvwxyz''"

definition toLowerChar :: "char \<Rightarrow> char" where
  "toLowerChar c = (case map_of (zip upperLetters lowerLetters) c of Some d \<Rightarrow> d | None \<Rightarrow> c)"

definition asciiToLower :: "string \<Rightarrow> string" where
  "asciiToLower s = map toLowerChar s"

definition isSpace :: "char \<Rightarrow> bool" where
  "isSpace c = (c \<in> set [CHR 0x09, CHR 0x0A, CHR 0x0B, CHR 0x0C, CHR 0x0D, CHR '' ''])"

definition asciiTrimSpace :: "string \<Rightarrow> string" where
  "asciiTrimSpace s = rev (dropWhile isSpace (rev (dropWhile isSpace s)))"

text \<open>\<^verbatim>\<open>strings.HasPrefix(s, prefix)\<close>:
  \<^verbatim>\<open>len(s) >= len(prefix) && s[:len(prefix)] == prefix\<close>.\<close>

definition HasPrefix :: "string \<Rightarrow> string \<Rightarrow> bool" where
  "HasPrefix s p = (length p \<le> length s \<and> take (length p) s = p)"

subsection \<open>Errors, terminal events, the trace\<close>

text \<open>
  A Go \<^verbatim>\<open>error\<close> value. \<open>ErrInterrupt\<close> is \<^verbatim>\<open>readline.ErrInterrupt\<close> (the user pressed
  the interrupt key), \<open>ErrEOF\<close> is \<^verbatim>\<open>io.EOF\<close>, \<open>ErrExternal\<close> is any other error a
  collaborator returns. The other constructors are the errors \<^verbatim>\<open>helpers.go\<close> creates
  with \<^verbatim>\<open>fmt.Errorf\<close>; only those written with \<^verbatim>\<open>%w\<close> carry the error they wrap.
\<close>

datatype error =
    ErrInterrupt
  | ErrEOF
  | ErrExternal string
  | ErrGit error "string list" string
  | ErrCouldntGatherSecretKey
  | ErrInvalidNsec error
  | ErrInvalidSecretKey
  | ErrCouldntDecrypt

text \<open>What one call of \<^verbatim>\<open>rl.Readline()\<close> returns: the line as the user left it, or an error.\<close>

datatype rl_event = Line string | ReadErr error

text \<open>\<^verbatim>\<open>readline.Config\<close>, the fields \<^verbatim>\<open>helpers.go\<close> sets (an unset \<^verbatim>\<open>MaskRune\<close> is
  the rune 0).\<close>

record Config =
  Prompt :: string
  InterruptPrompt :: string
  DisableAutoSaveHistory :: bool
  EnableMask :: bool
  MaskRune :: char

datatype event =
    EvNewEx Config
  | EvWriteStdin string
  | EvReadline
  | EvGit "string list"
  | EvGeneratePrivateKey
  | EvConnectBunker string string
  | EvDecrypt string string

text \<open>
  The mutable surroundings. \<open>tty\<close> holds what the successive calls of \<^verbatim>\<open>Readline\<close> will
  return, \<open>newex\<close> what the successive calls of \<^verbatim>\<open>readline.NewEx\<close> will return (\<open>None\<close>:
  an instance, \<open>Some err\<close>: the error), \<open>keys\<close> the successive results of
  \<^verbatim>\<open>nostr.GeneratePrivateKey\<close>, \<open>gitst\<close> the state the \<^verbatim>\<open>git\<close> executable works on.
\<close>

record 'g world =
  tty :: "rl_event stream"
  newex :: "error option stream"
  keys :: "string stream"
  gitst :: 'g
  trace :: "event list"

subsection \<open>Collaborators\<close>

text \<open>The handle \<^verbatim>\<open>*nip46.BunkerClient\<close>; \<^verbatim>\<open>nil\<close> is \<open>None\<close>.\<close>

datatype BunkerClient = BunkerClient nat

text \<open>
  What the libraries and the \<^verbatim>\<open>git\<close> executable compute, arbitrary in every theorem below.
  \<^item> \<open>exec_git args g\<close>: running \<^verbatim>\<open>git args...\<close> on the state \<open>g\<close>: standard output,
    standard error, the error of \<^verbatim>\<open>cmd.Output()\<close>, and the new state.
  \<^item> \<open>nip46_ConnectBunker clientKey url\<close>: the two results of \<^verbatim>\<open>nip46.ConnectBunker\<close>.
  \<^item> \<open>IsValid32ByteHex\<close>: \<^verbatim>\<open>nostr.IsValid32ByteHex\<close>.
  \<^item> \<open>nip19_Decode\<close>: \<^verbatim>\<open>nip19.Decode\<close>, its error or its value. The source reads the value
    as a string (\<^verbatim>\<open>hex.(string)\<close>, line 84) and calls \<^verbatim>\<open>Decode\<close> only on strings that
    start with \<^verbatim>\<open>nsec1\<close>, for which a value without error is the hex string of the key.
  \<^item> \<open>nip49_Decrypt blob password\<close>: \<^verbatim>\<open>nip49.Decrypt\<close>, its error or the key.
  \<^item> \<open>strings_ToLower\<close>, \<open>strings_TrimSpace\<close>: \<^verbatim>\<open>strings.ToLower\<close>, \<^verbatim>\<open>strings.TrimSpace\<close>.
\<close>

record 'g env =
  exec_git :: "string list \<Rightarrow> 'g \<Rightarrow> (string \<times> string \<times> error option) \<times> 'g"
  nip46_ConnectBunker :: "string \<Rightarrow> string \<Rightarrow> BunkerClient option \<times> error option"
  IsValid32ByteHex :: "string \<Rightarrow> bool"
  nip19_Decode :: "string \<Rightarrow> error + string"
  nip49_Decrypt :: "string \<Rightarrow> string \<Rightarrow> error + string"
  strings_ToLower :: "string \<Rightarrow> string"
  strings_TrimSpace :: "string \<Rightarrow> string"

text \<open>The normal form \<^verbatim>\<open>_ask\<close> gives a typed line (line 247).\<close>

abbreviation normalize :: "'g env \<Rightarrow> string \<Rightarrow> string" where
  "normalize E line \<equiv> strings_TrimSpace E (strings_ToLower E line)"

text \<open>The flags of \<^verbatim>\<open>*cli.Command\<close> that \<^verbatim>\<open>gatherSecretKeyOrBunker\<close> reads:
  \<^verbatim>\<open>c.String("connect")\<close>, \<^verbatim>\<open>c.String("sec")\<close>, \<^verbatim>\<open>c.IsSet("sec")\<close>, \<^verbatim>\<open>c.Bool("store-sec")\<close>.\<close>

record Command =
  String_connect :: string
  String_sec :: string
  IsSet_sec :: bool
  Bool_store_sec :: bool

subsection \<open>The prompt engine: \<^verbatim>\<open>_ask\<close>, \<^verbatim>\<open>ask\<close>, \<^verbatim>\<open>askPassword\<close>\<close>

text \<open>
  The \<^verbatim>\<open>for\<close> loop of \<^verbatim>\<open>_ask\<close> (lines 242 to 252). It has no bound: the result
  \<open>None\<close> stands for a loop that never returns. A callback of the source is a closure that
  assigns to a variable of its caller; here it takes that variable's value \<open>s\<close> and
  returns the new one beside its verdict. \<^verbatim>\<open>nil\<close> is \<open>None\<close>.
\<close>

partial_function (option) ask_loop ::
  "'g env \<Rightarrow> (string \<Rightarrow> 's \<Rightarrow> bool \<times> 's) option \<Rightarrow> 's \<Rightarrow> 'g world
     \<Rightarrow> ((string \<times> error option) \<times> 's \<times> 'g world) option" where
  "ask_loop E shouldAskAgain s w =
     (let w1 = w\<lparr>tty := stl (tty w), trace := trace w @ [EvReadline]\<rparr> in
      case shd (tty w) of
        ReadErr err \<Rightarrow> Some (('''', Some err), s, w1)
      | Line line \<Rightarrow>
          (let answer = strings_TrimSpace E (strings_ToLower E line) in
           case shouldAskAgain of
             None \<Rightarrow> Some ((answer, None), s, w1)
           | Some f \<Rightarrow>
               (let (again, s') = f answer s in
                if again then ask_loop E shouldAskAgain s' w1
                else Some ((answer, None), s', w1))))"

text \<open>\<^verbatim>\<open>_ask\<close> (line 235): \<^verbatim>\<open>readline.NewEx\<close>, \<^verbatim>\<open>rl.WriteStdin\<close>, then the loop.\<close>

definition ask_impl ::
  "'g env \<Rightarrow> Config \<Rightarrow> string \<Rightarrow> string \<Rightarrow> (string \<Rightarrow> 's \<Rightarrow> bool \<times> 's) option \<Rightarrow> 's \<Rightarrow> 'g world
     \<Rightarrow> ((string \<times> error option) \<times> 's \<times> 'g world) option" where
  "ask_impl E config msg defaultValue shouldAskAgain s w =
     (let w1 = w\<lparr>newex := stl (newex w), trace := trace w @ [EvNewEx config]\<rparr> in
      case shd (newex w) of
        Some err \<Rightarrow> Some (('''', Some err), s, w1)
      | None \<Rightarrow>
          ask_loop E shouldAskAgain s (w1\<lparr>trace := trace w1 @ [EvWriteStdin defaultValue]\<rparr>))"

text \<open>\<^verbatim>\<open>ask\<close> (line 216) and \<^verbatim>\<open>askPassword\<close> (line 224), with the configuration each
  builds. \<^verbatim>\<open>color.YellowString\<close> only adds colour codes to the prompt and is left out.\<close>

abbreviation plainConfig :: "string \<Rightarrow> Config" where
  "plainConfig msg \<equiv>
     \<lparr>Prompt = msg, InterruptPrompt = ''^C'', DisableAutoSaveHistory = True,
      EnableMask = False, MaskRune = CHR 0x00\<rparr>"

abbreviation maskedConfig :: "string \<Rightarrow> Config" where
  "maskedConfig msg \<equiv>
     \<lparr>Prompt = msg, InterruptPrompt = ''^C'', DisableAutoSaveHistory = True,
      EnableMask = True, MaskRune = CHR ''*''\<rparr>"

definition ask ::
  "'g env \<Rightarrow> string \<Rightarrow> string \<Rightarrow> (string \<Rightarrow> 's \<Rightarrow> bool \<times> 's) option \<Rightarrow> 's \<Rightarrow> 'g world
     \<Rightarrow> ((string \<times> error option) \<times> 's \<times> 'g world) option" where
  "ask E msg defaultValue shouldAskAgain s w =
     ask_impl E (plainConfig msg) msg defaultValue shouldAskAgain s w"

definition askPassword ::
  "'g env \<Rightarrow> string \<Rightarrow> (string \<Rightarrow> 's \<Rightarrow> bool \<times> 's) option \<Rightarrow> 's \<Rightarrow> 'g world
     \<Rightarrow> ((string \<times> error option) \<times> 's \<times> 'g world) option" where
  "askPassword E msg shouldAskAgain s w =
     ask_impl E (maskedConfig msg) msg '''' shouldAskAgain s w"

subsection \<open>Calls of the collaborators\<close>

text \<open>\<^verbatim>\<open>git\<close> (line 127): runs the executable, wraps its error, trims its output.\<close>

definition git :: "'g env \<Rightarrow> string list \<Rightarrow> 'g world \<Rightarrow> (string \<times> error option) \<times> 'g world" where
  "git E args w =
     (let ((v, stderr, err), g') = exec_git E args (gitst w);
          err' = (case err of None \<Rightarrow> None
                  | Some e \<Rightarrow> Some (ErrGit e (''git'' # args) stderr))
      in ((strings_TrimSpace E v, err'), w\<lparr>gitst := g', trace := trace w @ [EvGit args]\<rparr>))"

definition GeneratePrivateKey :: "'g world \<Rightarrow> string \<times> 'g world" where
  "GeneratePrivateKey w =
     (shd (keys w), w\<lparr>keys := stl (keys w), trace := trace w @ [EvGeneratePrivateKey]\<rparr>)"

definition ConnectBunker ::
  "'g env \<Rightarrow> string \<Rightarrow> string \<Rightarrow> 'g world
     \<Rightarrow> (BunkerClient option \<times> error option) \<times> 'g world" where
  "ConnectBunker E clientKey url w =
     (nip46_ConnectBunker E clientKey url,
      w\<lparr>trace := trace w @ [EvConnectBunker clientKey url]\<rparr>)"

definition Decrypt ::
  "'g env \<Rightarrow> string \<Rightarrow> string \<Rightarrow> 'g world \<Rightarrow> (error + string) \<times> 'g world" where
  "Decrypt E blob password w =
     (nip49_Decrypt E blob password, w\<lparr>trace := trace w @ [EvDecrypt blob password]\<rparr>)"

subsection \<open>\<^verbatim>\<open>confirm\<close> (line 180)\<close>

text \<open>The closure passed to \<^verbatim>\<open>ask\<close>; the variable it assigns is \<^verbatim>\<open>res\<close>.\<close>

definition confirm_shouldAskAgain :: "string \<Rightarrow> bool \<Rightarrow> bool \<times> bool" where
  "confirm_shouldAskAgain answer res =
     (if answer = ''y'' \<or> answer = ''yes'' then (False, True)
      else if answer = ''n'' \<or> answer = ''no'' then (False, False)
      else (True, res))"

definition confirm :: "'g env \<Rightarrow> string \<Rightarrow> 'g world \<Rightarrow> (bool \<times> 'g world) option" where
  "confirm E msg w =
     (case ask E (msg @ ''(y/n) '') '''' (Some confirm_shouldAskAgain) False w of
        None \<Rightarrow> None
      | Some (_, res, w1) \<Rightarrow> Some (res, w1))"

subsection \<open>\<^verbatim>\<open>promptDecrypt\<close> (line 197)\<close>

text \<open>\<^verbatim>\<open>%d\<close> of \<^verbatim>\<open>fmt.Sprintf\<close> on a number that is not negative.\<close>

fun Itoa :: "nat \<Rightarrow> string" where
  "Itoa n = (if n < 10 then [''0123456789'' ! n]
             else Itoa (n div 10) @ [''0123456789'' ! (n mod 10)])"

declare Itoa.simps [simp del]

text \<open>The loop \<^verbatim>\<open>for i := 1; i < 4; i++\<close>, from the value \<open>i\<close> on.\<close>

function promptDecrypt_loop ::
  "'g env \<Rightarrow> string \<Rightarrow> nat \<Rightarrow> 'g world \<Rightarrow> ((string \<times> error option) \<times> 'g world) option" where
  "promptDecrypt_loop E ncryptsec1 i w =
     (if i < 4 then
        (let attemptStr = (if i > 1 then '' ['' @ Itoa i @ ''/3]'' else '''') in
         case askPassword E (''type the password to decrypt your secret key'' @ attemptStr @ '': '')
                None () w of
           None \<Rightarrow> None
         | Some ((password, Some err), _, w1) \<Rightarrow> Some (('''', Some err), w1)
         | Some ((password, None), _, w1) \<Rightarrow>
             (case Decrypt E ncryptsec1 password w1 of
                (Inl err, w2) \<Rightarrow> promptDecrypt_loop E ncryptsec1 (i + 1) w2
              | (Inr sec, w2) \<Rightarrow> Some ((sec, None), w2)))
      else Some (('''', Some ErrCouldntDecrypt), w))"
  by pat_completeness auto
termination
  by (relation "measure (\<lambda>(E, ncryptsec1, i, w). 4 - i)") auto

declare promptDecrypt_loop.simps [simp del]

definition promptDecrypt ::
  "'g env \<Rightarrow> string \<Rightarrow> 'g world \<Rightarrow> ((string \<times> error option) \<times> 'g world) option" where
  "promptDecrypt E ncryptsec1 w = promptDecrypt_loop E ncryptsec1 1 w"

subsection \<open>\<^verbatim>\<open>gatherSecretKeyOrBunker\<close> (line 29)\<close>

text \<open>Lines 35 to 38: the address of the remote signer.\<close>

definition lookupBunkerURL :: "'g env \<Rightarrow> Command \<Rightarrow> 'g world \<Rightarrow> string \<times> 'g world" where
  "lookupBunkerURL E c w =
     (let bunkerURL = String_connect c in
      if bunkerURL = '''' then
        (let ((out, _), w1) = git E [''config'', ''--local'', ''str.bunker'', bunkerURL] w
         in (out, w1))
      else (bunkerURL, w))"

text \<open>Lines 40 to 45: connect with a new client key; store the address when a handle came back.\<close>

definition connectBunker ::
  "'g env \<Rightarrow> string \<Rightarrow> 'g world
     \<Rightarrow> (BunkerClient option \<times> string \<times> bool \<times> error option) \<times> 'g world" where
  "connectBunker E bunkerURL w =
     (let (clientKey, w1) = GeneratePrivateKey w;
          ((bunker, err), w2) = ConnectBunker E clientKey bunkerURL w1;
          w3 = (if bunker \<noteq> None
                then snd (git E [''config'', ''--local'', ''str.bunker'', bunkerURL] w2)
                else w2)
      in ((bunker, '''', False, err), w3))"

text \<open>Lines 48 to 51: the secret of the flag, else of the configuration.\<close>

definition lookupSec :: "'g env \<Rightarrow> Command \<Rightarrow> 'g world \<Rightarrow> string \<times> 'g world" where
  "lookupSec E c w =
     (let sec = String_sec c in
      if sec = '''' \<and> \<not> IsSet_sec c then
        (let ((out, _), w1) = git E [''config'', ''--local'', ''str.secretkey''] w
         in (out, w1))
      else (sec, w))"

text \<open>The closure of lines 55 to 69; the variable it assigns is \<^verbatim>\<open>askToStore\<close>.\<close>

definition sec_shouldAskAgain :: "'g env \<Rightarrow> string \<Rightarrow> bool \<Rightarrow> bool \<times> bool" where
  "sec_shouldAskAgain E answer askToStore =
     (if IsValid32ByteHex E answer then (False, True)
      else if HasPrefix answer ''nsec1'' then (False, True)
      else if HasPrefix answer ''ncryptsec1'' then (False, askToStore)
      else (True, askToStore))"

text \<open>Lines 48 to 73: the secret string and \<^verbatim>\<open>askToStore\<close>, or the error of line 71.\<close>

definition gatherSec ::
  "'g env \<Rightarrow> Command \<Rightarrow> 'g world \<Rightarrow> ((error + string \<times> bool) \<times> 'g world) option" where
  "gatherSec E c w =
     (let (sec, w1) = lookupSec E c w; askToStore = False in
      if sec = '''' then
        (case ask E ''input secret key (hex, nsec or ncryptsec): '' ''''
                (Some (sec_shouldAskAgain E)) askToStore w1 of
           None \<Rightarrow> None
         | Some ((sec', _), askToStore', w2) \<Rightarrow>
             if sec' = '''' then Some (Inl ErrCouldntGatherSecretKey, w2)
             else Some (Inr (sec', askToStore'), w2))
      else Some (Inr (sec, askToStore), w1))"

text \<open>Lines 75 to 96: classify the secret, decide whether to store it, return.\<close>

definition finishSec ::
  "'g env \<Rightarrow> Command \<Rightarrow> string \<Rightarrow> bool \<Rightarrow> 'g world
     \<Rightarrow> ((BunkerClient option \<times> string \<times> bool \<times> error option) \<times> 'g world) option" where
  "finishSec E c sec askToStore w =
     (if HasPrefix sec ''ncryptsec1'' then
        Some ((None, sec, True, None),
              snd (git E [''config'', ''--local'', ''str.secretkey'', sec] w))
      else
        (case (if HasPrefix sec ''nsec1'' then
                 (case nip19_Decode E sec of
                    Inl err \<Rightarrow> Inl (ErrInvalidNsec err)
                  | Inr hex \<Rightarrow> Inr hex)
               else Inr sec) of
           Inl err \<Rightarrow> Some ((None, '''', False, Some err), w)
         | Inr sec' \<Rightarrow>
             if \<not> IsValid32ByteHex E sec' then
               Some ((None, '''', False, Some ErrInvalidSecretKey), w)
             else
               (case (if askToStore then confirm E ''store the secret key on git config? '' w
                      else Some (False, w)) of
                  None \<Rightarrow> None
                | Some (confirmed, w1) \<Rightarrow>
                    Some ((None, sec', False, None),
                          if confirmed \<or> Bool_store_sec c
                          then snd (git E [''config'', ''--local'', ''str.secretkey'', sec'] w1)
                          else w1))))"

definition gatherSecretKeyOrBunker ::
  "'g env \<Rightarrow> Command \<Rightarrow> 'g world
     \<Rightarrow> ((BunkerClient option \<times> string \<times> bool \<times> error option) \<times> 'g world) option" where
  "gatherSecretKeyOrBunker E c w =
     (let (bunkerURL, w1) = lookupBunkerURL E c w in
      if bunkerURL \<noteq> '''' then Some (connectBunker E bunkerURL w1)
      else
        (case gatherSec E c w1 of
           None \<Rightarrow> None
         | Some (Inl err, w2) \<Rightarrow> Some ((None, '''', False, Some err), w2)
         | Some (Inr (sec, askToStore), w2) \<Rightarrow> finishSec E c sec askToStore w2))"

subsection \<open>Reading the trace\<close>

text \<open>A call of \<^verbatim>\<open>nip49.Decrypt\<close>.\<close>

fun isDecrypt :: "event \<Rightarrow> bool" where
  "isDecrypt (EvDecrypt blob password) = True"
| "isDecrypt ev = False"

definition decryptCalls :: "event list \<Rightarrow> nat" where
  "decryptCalls evs = length (filter isDecrypt evs)"

text \<open>A call of \<^verbatim>\<open>nip49.Decrypt\<close> that returns an error, or any other event.\<close>

fun notDecrypted :: "'g env \<Rightarrow> event \<Rightarrow> bool" where
  "notDecrypted E (EvDecrypt blob password) = isl (nip49_Decrypt E blob password)"
| "notDecrypted E ev = True"

text \<open>A write of the stored secret: \<^verbatim>\<open>git config --local str.secretkey <value>\<close>.\<close>

fun isStoreSecret :: "event \<Rightarrow> bool" where
  "isStoreSecret (EvGit args) =
     (length args = 4 \<and> take 3 args = [''config'', ''--local'', ''str.secretkey''])"
| "isStoreSecret ev = False"

text \<open>Any call of \<^verbatim>\<open>git config --local str.secretkey\<close>, reading or writing.\<close>

fun touchesSecret :: "event \<Rightarrow> bool" where
  "touchesSecret (EvGit args) = (take 3 args = [''config'', ''--local'', ''str.secretkey''])"
| "touchesSecret ev = False"

text \<open>A call of \<^verbatim>\<open>nip46.ConnectBunker\<close>.\<close>

fun isConnect :: "event \<Rightarrow> bool" where
  "isConnect (EvConnectBunker clientKey url) = True"
| "isConnect ev = False"

text \<open>An event of the terminal: a new prompt, its prefilled text, a line read.\<close>

fun isTerminal :: "event \<Rightarrow> bool" where
  "isTerminal (EvNewEx config) = True"
| "isTerminal (EvWriteStdin text) = True"
| "isTerminal EvReadline = True"
| "isTerminal ev = False"

subsection \<open>Concrete collaborators for the scenarios\<close>

text \<open>
  A reference behaviour of \<^verbatim>\<open>git config --local\<close> on a map from names to values: with a
  name it prints the value and a line feed, or fails when the name has no value; with a
  name and a value it sets the value and prints nothing.
\<close>

fun git_config ::
  "string list \<Rightarrow> (string \<rightharpoonup> string)
     \<Rightarrow> (string \<times> string \<times> error option) \<times> (string \<rightharpoonup> string)" where
  "git_config [a, b, k] m =
     (if a = ''config'' \<and> b = ''--local'' then
        (case m k of
           Some v \<Rightarrow> ((v @ [CHR 0x0A], '''', None), m)
         | None \<Rightarrow> (('''', '''', Some (ErrExternal ''exit status 1'')), m))
      else (('''', ''usage'', Some (ErrExternal ''exit status 129'')), m))"
| "git_config [a, b, k, v] m =
     (if a = ''config'' \<and> b = ''--local'' then (('''', '''', None), m(k \<mapsto> v))
      else (('''', ''usage'', Some (ErrExternal ''exit status 129'')), m))"
| "git_config args m = (('''', ''usage'', Some (ErrExternal ''exit status 129'')), m)"

text \<open>A key and its bech32 form (the example of NIP-19).\<close>

definition hexKey :: string where
  "hexKey = ''67dea2ed018072d675f5415ecfaed7d2597555e202d85b3d65ea4e58d2d92ffa''"

definition nsecKey :: string where
  "nsecKey = ''nsec1vl029mgpspedva04g90vltkh6fvh240zqtv9k0t9af8935ke9laqsnlfe5''"

definition isHex64 :: "string \<Rightarrow> bool" where
  "isHex64 s = (length s = 64 \<and> list_all (\<lambda>c. c \<in> set ''0123456789abcdef'') s)"

definition env0 :: "(string \<rightharpoonup> string) env" where
  "env0 =
     \<lparr>exec_git = git_config,
      nip46_ConnectBunker =
        (\<lambda>clientKey url.
           if url = ''bunker://signer'' then (Some (BunkerClient 1), None)
           else (None, Some (ErrExternal ''no bunker reachable''))),
      IsValid32ByteHex = isHex64,
      nip19_Decode =
        (\<lambda>s. if s = nsecKey then Inr hexKey else Inl (ErrExternal ''invalid bech32 string'')),
      nip49_Decrypt =
        (\<lambda>blob password.
           if password = ''hunter2'' then Inr hexKey else Inl (ErrExternal ''wrong password'')),
      strings_ToLower = asciiToLower,
      strings_TrimSpace = asciiTrimSpace\<rparr>"

text \<open>The same, with a passphrase that has an upper-case letter.\<close>

definition envCase :: "(string \<rightharpoonup> string) env" where
  "envCase =
     env0\<lparr>nip49_Decrypt :=
        (\<lambda>blob password.
           if password = ''Hunter2'' then Inr hexKey else Inl (ErrExternal ''wrong password''))\<rparr>"

text \<open>The user types the given lines, then the input ends.\<close>

definition typed :: "string list \<Rightarrow> rl_event stream" where
  "typed ls = map Line ls @- sconst (ReadErr ErrEOF)"

definition world0 :: "rl_event stream \<Rightarrow> (string \<rightharpoonup> string) world" where
  "world0 input =
     \<lparr>tty = input, newex = sconst None, keys = sconst (replicate 64 (CHR ''1'')),
      gitst = Map.empty, trace = []\<rparr>"

text \<open>The value of a name in the configuration of the reference \<^verbatim>\<open>git config\<close>.\<close>

definition storedSetting :: "string \<Rightarrow> (string \<rightharpoonup> string) world \<Rightarrow> string option" where
  "storedSetting name w = gitst w name"

definition flags0 :: Command where
  "flags0 = \<lparr>String_connect = '''', String_sec = '''', IsSet_sec = False, Bool_store_sec = False\<rparr>"

text \<open>The world after a prompt that was created with \<open>config\<close>, prefilled with
  \<open>defaultValue\<close> and read \<open>n\<close> events, leaving \<open>rest\<close> of the terminal input.\<close>

definition prompted ::
  "Config \<Rightarrow> string \<Rightarrow> nat \<Rightarrow> rl_event stream \<Rightarrow> 'g world \<Rightarrow> 'g world" where
  "prompted config defaultValue n rest w =
     w\<lparr>newex := stl (newex w), tty := rest,
       trace := trace w @ [EvNewEx config, EvWriteStdin defaultValue] @ replicate n EvReadline\<rparr>"

subsection \<open>What a returned prompt has done\<close>

text \<open>
  The callback is called on one answer after the other, each call starting from the value
  the call before left in the variable it assigns: \<open>replay\<close> is that value after the given
  answers, \<open>rejected\<close> says that every one of these calls returned true.
\<close>

fun replay :: "(string \<Rightarrow> 's \<Rightarrow> bool \<times> 's) \<Rightarrow> 's \<Rightarrow> string list \<Rightarrow> 's" where
  "replay f s [] = s"
| "replay f s (answer # answers) = replay f (snd (f answer s)) answers"

fun rejected :: "(string \<Rightarrow> 's \<Rightarrow> bool \<times> 's) \<Rightarrow> 's \<Rightarrow> string list \<Rightarrow> bool" where
  "rejected f s [] = True"
| "rejected f s (answer # answers) = (fst (f answer s) \<and> rejected f (snd (f answer s)) answers)"

text \<open>
  The loop of \<^verbatim>\<open>_ask\<close> returned after reading the lines \<open>pre\<close> and then the event \<open>ev\<close>: it
  changed nothing but the terminal input and the trace, the callback (when there is one)
  rejected the normal form of every line of \<open>pre\<close>, and the result is \<open>ev\<close>: a read error,
  or a line on whose normal form the callback, called after those rejections, returned
  false.
\<close>

definition ask_post ::
  "'g env \<Rightarrow> (string \<Rightarrow> 's \<Rightarrow> bool \<times> 's) option \<Rightarrow> 's \<Rightarrow> 'g world
     \<Rightarrow> string \<Rightarrow> error option \<Rightarrow> 's \<Rightarrow> 'g world \<Rightarrow> bool" where
  "ask_post E p s w answer err s' w' =
     (\<exists>pre ev.
        tty w = map Line pre @- (ev ## tty w') \<and>
        trace w' = trace w @ replicate (Suc (length pre)) EvReadline \<and>
        newex w' = newex w \<and> keys w' = keys w \<and> gitst w' = gitst w \<and>
        (case p of
           None \<Rightarrow> pre = [] \<and> s' = s \<and>
             (case ev of
                ReadErr e \<Rightarrow> answer = '''' \<and> err = Some e
              | Line line \<Rightarrow> answer = normalize E line \<and> err = None)
         | Some f \<Rightarrow> rejected f s (map (normalize E) pre) \<and>
             (case ev of
                ReadErr e \<Rightarrow> answer = '''' \<and> err = Some e \<and>
                  s' = replay f s (map (normalize E) pre)
              | Line line \<Rightarrow> answer = normalize E line \<and> err = None \<and>
                  f (normalize E line) (replay f s (map (normalize E) pre)) = (False, s'))))"

text \<open>The prompt of attempt \<open>i\<close> of \<^verbatim>\<open>promptDecrypt\<close> (lines 199 to 203).\<close>

definition attemptMsg :: "nat \<Rightarrow> string" where
  "attemptMsg i = ''type the password to decrypt your secret key'' @
     (if i > 1 then '' ['' @ Itoa i @ ''/3]'' else '''') @ '': ''"

section \<open>The prompt loop\<close>

lemma env0_strings:
  "strings_ToLower env0 = asciiToLower" "strings_TrimSpace env0 = asciiTrimSpace"
  "strings_ToLower envCase = asciiToLower" "strings_TrimSpace envCase = asciiTrimSpace"
  by (simp_all add: env0_def envCase_def)

lemmas normalize_eval =
  env0_strings asciiTrimSpace_def asciiToLower_def toLowerChar_def upperLetters_def
  lowerLetters_def isSpace_def

lemma ask_loop_err:
  "shd (tty w) = ReadErr err \<Longrightarrow>
   ask_loop E p s w = Some (('''', Some err), s, w\<lparr>tty := stl (tty w), trace := trace w @ [EvReadline]\<rparr>)"
  by (subst ask_loop.simps) simp

lemma ask_loop_nil:
  "shd (tty w) = Line line \<Longrightarrow>
   ask_loop E None s w = Some ((normalize E line, None), s,
       w\<lparr>tty := stl (tty w), trace := trace w @ [EvReadline]\<rparr>)"
  by (subst ask_loop.simps) simp

lemma ask_loop_again:
  "shd (tty w) = Line line \<Longrightarrow> f (normalize E line) s = (True, s') \<Longrightarrow>
   ask_loop E (Some f) s w = ask_loop E (Some f) s' (w\<lparr>tty := stl (tty w), trace := trace w @ [EvReadline]\<rparr>)"
  by (subst ask_loop.simps) simp

lemma ask_loop_accept:
  "shd (tty w) = Line line \<Longrightarrow> f (normalize E line) s = (False, s') \<Longrightarrow>
   ask_loop E (Some f) s w = Some ((normalize E line, None), s',
       w\<lparr>tty := stl (tty w), trace := trace w @ [EvReadline]\<rparr>)"
  by (subst ask_loop.simps) simp

lemma ask_loop_post:
  assumes "ask_loop E p s w = Some y"
  shows "case y of ((answer, err), s', w') \<Rightarrow> ask_post E p s w answer err s' w'"
proof (rule ask_loop.raw_induct[where P = "\<lambda>E p s w y. case y of ((answer, err), s', w') \<Rightarrow>
         ask_post E p s w answer err s' w'", OF _ assms], goal_cases)
  case (1 loop E p s w y)
  let ?w1 = "w\<lparr>tty := stl (tty w), trace := trace w @ [EvReadline]\<rparr>"
  have tw: "tty w = shd (tty w) ## stl (tty w)" by simp
  show ?case
  proof (cases "shd (tty w)")
    case (ReadErr e)
    with 1(2) have y: "y = (('''', Some e), s, ?w1)" by simp
    have "tty w = map Line [] @- (ReadErr e ## tty ?w1)"
      using tw ReadErr by simp
    then have "ask_post E p s w '''' (Some e) s ?w1"
      unfolding ask_post_def
      by (intro exI[of _ "[]"] exI[of _ "ReadErr e"]) (simp split: option.splits)
    with y show ?thesis by simp
  next
    case (Line line)
    have hd: "tty w = map Line [] @- (Line line ## tty ?w1)"
      using tw Line by simp
    show ?thesis
    proof (cases p)
      case None
      with Line 1(2) have y: "y = ((normalize E line, None), s, ?w1)" by simp
      have "ask_post E p s w (normalize E line) None s ?w1"
        unfolding ask_post_def using hd None
        by (intro exI[of _ "[]"] exI[of _ "Line line"]) simp
      with y show ?thesis by simp
    next
      case (Some f)
      obtain again s1 where f: "f (normalize E line) s = (again, s1)"
        by (cases "f (normalize E line) s")
      show ?thesis
      proof (cases again)
        case False
        with Line Some f 1(2) have y: "y = ((normalize E line, None), s1, ?w1)" by simp
        have "ask_post E p s w (normalize E line) None s1 ?w1"
          unfolding ask_post_def using hd Some f False
          by (intro exI[of _ "[]"] exI[of _ "Line line"]) simp
        with y show ?thesis by simp
      next
        case True
        obtain answer err s' w' where y: "y = ((answer, err), s', w')" by (metis prod.exhaust)
        from True Line Some f 1(2) have "loop E p s1 ?w1 = Some y" by simp
        from 1(1)[OF this] y have "ask_post E p s1 ?w1 answer err s' w'" by simp
        then obtain pre ev where r:
          "tty ?w1 = map Line pre @- (ev ## tty w')"
          "trace w' = trace ?w1 @ replicate (Suc (length pre)) EvReadline"
          "newex w' = newex ?w1" "keys w' = keys ?w1" "gitst w' = gitst ?w1"
          "rejected f s1 (map (normalize E) pre)"
          "(case ev of
                ReadErr e \<Rightarrow> answer = '''' \<and> err = Some e \<and>
                  s' = replay f s1 (map (normalize E) pre)
              | Line line \<Rightarrow> answer = normalize E line \<and> err = None \<and>
                  f (normalize E line) (replay f s1 (map (normalize E) pre)) = (False, s'))"
          unfolding ask_post_def Some by auto
        have t: "tty w = map Line (line # pre) @- (ev ## tty w')"
          using tw Line r(1) by simp
        have rej: "rejected f s (map (normalize E) (line # pre))"
          using f True r(6) by simp
        have rp: "replay f s (map (normalize E) (line # pre)) = replay f s1 (map (normalize E) pre)"
          using f by simp
        have "ask_post E p s w answer err s' w'"
          unfolding ask_post_def Some
          using t rej r(2-5) r(7) unfolding rp[symmetric]
          by (intro exI[of _ "line # pre"] exI[of _ ev]) (simp add: replicate_app_Cons_same)
        with y show ?thesis by simp
      qed
    qed
  qed
qed

lemma ask_loop_postD:
  "ask_loop E p s w = Some ((answer, err), s', w') \<Longrightarrow> ask_post E p s w answer err s' w'"
  by (drule ask_loop_post) simp

lemma ask_loop_skip:
  assumes "\<forall>l \<in> set pre. f (normalize E l) s = (True, s)"
    and "tty w = map Line pre @- rest"
  shows "ask_loop E (Some f) s w =
         ask_loop E (Some f) s (w\<lparr>tty := rest, trace := trace w @ replicate (length pre) EvReadline\<rparr>)"
  using assms
proof (induction pre arbitrary: w)
  case Nil
  then have "w\<lparr>tty := rest, trace := trace w\<rparr> = w" by simp
  then show ?case by simp
next
  case (Cons l pre)
  let ?w1 = "w\<lparr>tty := stl (tty w), trace := trace w @ [EvReadline]\<rparr>"
  from Cons.prems have hd: "shd (tty w) = Line l" and rej: "f (normalize E l) s = (True, s)"
    and tl: "tty ?w1 = map Line pre @- rest" by simp_all
  from Cons.prems have pre: "\<forall>l \<in> set pre. f (normalize E l) s = (True, s)" by simp
  have "ask_loop E (Some f) s w = ask_loop E (Some f) s ?w1"
    using hd rej by (rule ask_loop_again[where f = f and s = s and s' = s])
  also have "\<dots> = ask_loop E (Some f) s
      (?w1\<lparr>tty := rest, trace := trace ?w1 @ replicate (length pre) EvReadline\<rparr>)"
    using pre tl by (rule Cons.IH[where w = ?w1])
  finally show ?case by (simp add: replicate_app_Cons_same)
qed

lemma ask_impl_ok:
  "shd (newex w) = None \<Longrightarrow>
   ask_impl E config msg defaultValue p s w =
   ask_loop E p s (w\<lparr>newex := stl (newex w),
                    trace := trace w @ [EvNewEx config, EvWriteStdin defaultValue]\<rparr>)"
  by (simp add: ask_impl_def)

lemma ask_impl_fail:
  "shd (newex w) = Some e \<Longrightarrow>
   ask_impl E config msg defaultValue p s w =
   Some (('''', Some e), s, w\<lparr>newex := stl (newex w), trace := trace w @ [EvNewEx config]\<rparr>)"
  by (simp add: ask_impl_def)

text \<open>After lines the callback rejects without changing its variable, the next event decides.\<close>

lemma ask_impl_after_rejected:
  assumes rej: "\<forall>l \<in> set pre. f (normalize E l) s = (True, s)"
    and tty: "tty w = map Line pre @- (ev ## rest)"
    and ok: "shd (newex w) = None"
  shows "ask_impl E config msg defaultValue (Some f) s w =
         (let w' = prompted config defaultValue (Suc (length pre)) rest w
          in case ev of
               ReadErr e \<Rightarrow> Some (('''', Some e), s, w')
             | Line line \<Rightarrow>
                 (let (again, s') = f (normalize E line) s in
                  if again
                  then ask_loop E (Some f) s' w'
                  else Some ((normalize E line, None), s', w')))"
proof -
  let ?w1 = "w\<lparr>newex := stl (newex w),
                 trace := trace w @ [EvNewEx config, EvWriteStdin defaultValue]\<rparr>"
  let ?w2 = "?w1\<lparr>tty := ev ## rest, trace := trace ?w1 @ replicate (length pre) EvReadline\<rparr>"
  have "ask_impl E config msg defaultValue (Some f) s w = ask_loop E (Some f) s ?w1"
    by (rule ask_impl_ok[OF ok])
  also have "\<dots> = ask_loop E (Some f) s ?w2"
    using rej by (rule ask_loop_skip[where f = f and s = s and pre = pre]) (simp add: tty)
  also have "\<dots> =
         (let w' = prompted config defaultValue (Suc (length pre)) rest w
          in case ev of
               ReadErr e \<Rightarrow> Some (('''', Some e), s, w')
             | Line line \<Rightarrow>
                 (let (again, s') = f (normalize E line) s in
                  if again
                  then ask_loop E (Some f) s' w'
                  else Some ((normalize E line, None), s', w')))"
    by (subst ask_loop.simps)
       (simp add: Let_def prompted_def replicate_app_Cons_same split: rl_event.splits prod.splits)
  finally show ?thesis .
qed

subsection \<open>The calls of \<^verbatim>\<open>git\<close> leave the terminal alone\<close>

lemma git_fields [simp]:
  "tty (snd (git E args w)) = tty w"
  "newex (snd (git E args w)) = newex w"
  "keys (snd (git E args w)) = keys w"
  "trace (snd (git E args w)) = trace w @ [EvGit args]"
  "gitst (snd (git E args w)) = snd (exec_git E args (gitst w))"
  by (simp_all add: git_def Let_def split: prod.splits)

lemma lookupBunkerURL_fields [simp]:
  "tty (snd (lookupBunkerURL E c w)) = tty w"
  "newex (snd (lookupBunkerURL E c w)) = newex w"
  "keys (snd (lookupBunkerURL E c w)) = keys w"
  "trace (snd (lookupBunkerURL E c w)) =
     trace w @ (if String_connect c = '''' then [EvGit [''config'', ''--local'', ''str.bunker'', '''']]
                else [])"
  by (simp_all add: lookupBunkerURL_def git_def Let_def split: prod.splits)

lemma lookupSec_fields [simp]:
  "tty (snd (lookupSec E c w)) = tty w"
  "newex (snd (lookupSec E c w)) = newex w"
  "keys (snd (lookupSec E c w)) = keys w"
  "trace (snd (lookupSec E c w)) =
     trace w @ (if String_sec c = '''' \<and> \<not> IsSet_sec c
                then [EvGit [''config'', ''--local'', ''str.secretkey'']] else [])"
  by (simp_all add: lookupSec_def git_def Let_def split: prod.splits)

subsection \<open>The two callbacks\<close>

lemma confirm_shouldAskAgain_cases:
  "confirm_shouldAskAgain answer res =
     (if answer \<in> {''y'', ''yes''} then (False, True)
      else if answer \<in> {''n'', ''no''} then (False, False) else (True, res))"
  by (simp add: confirm_shouldAskAgain_def)

lemma sec_shouldAskAgain_rejected:
  "fst (sec_shouldAskAgain E answer askToStore)
   \<Longrightarrow> sec_shouldAskAgain E answer askToStore = (True, askToStore)"
  by (simp add: sec_shouldAskAgain_def split: if_splits)

subsection \<open>Running the scenarios\<close>

lemmas run_eval =
  gatherSecretKeyOrBunker_def lookupBunkerURL_def lookupSec_def gatherSec_def finishSec_def
  connectBunker_def git_def GeneratePrivateKey_def ConnectBunker_def Decrypt_def confirm_def
  ask_def askPassword_def ask_impl_def ask_loop.simps env0_def envCase_def world0_def typed_def flags0_def
  sec_shouldAskAgain_def confirm_shouldAskAgain_def HasPrefix_def normalize_eval isHex64_def
  hexKey_def nsecKey_def

subsection \<open>The passphrase prompt and the loop of \<^verbatim>\<open>promptDecrypt\<close>\<close>

lemma askPassword_nil:
  "askPassword E msg None s w =
     Some (case shd (newex w) of
             Some e \<Rightarrow> (('''', Some e), s,
                        w\<lparr>newex := stl (newex w), trace := trace w @ [EvNewEx (maskedConfig msg)]\<rparr>)
           | None \<Rightarrow>
               (case shd (tty w) of
                  ReadErr e \<Rightarrow> (('''', Some e), s, prompted (maskedConfig msg) '''' 1 (stl (tty w)) w)
                | Line line \<Rightarrow>
                    ((normalize E line, None), s, prompted (maskedConfig msg) '''' 1 (stl (tty w)) w)))"
  by (simp add: askPassword_def ask_impl_def ask_loop_err ask_loop_nil prompted_def
      split: option.splits rl_event.splits)

lemma decryptCalls_simps [simp]:
  "decryptCalls [] = 0"
  "decryptCalls (ev # evs) = (if isDecrypt ev then Suc (decryptCalls evs) else decryptCalls evs)"
  "decryptCalls (evs @ evs') = decryptCalls evs + decryptCalls evs'"
  by (simp_all add: decryptCalls_def)

lemma decryptCalls_replicate [simp]: "decryptCalls (replicate n EvReadline) = 0"
  by (induction n) simp_all

lemma promptDecrypt_loop_step:
  "i < 4 \<Longrightarrow>
   promptDecrypt_loop E blob i w =
     (case shd (newex w) of
        Some e \<Rightarrow> Some (('''', Some e),
                    w\<lparr>newex := stl (newex w),
                      trace := trace w @ [EvNewEx (maskedConfig (attemptMsg i))]\<rparr>)
      | None \<Rightarrow>
          (case shd (tty w) of
             ReadErr e \<Rightarrow>
               Some (('''', Some e), prompted (maskedConfig (attemptMsg i)) '''' 1 (stl (tty w)) w)
           | Line line \<Rightarrow>
               (let w2 = (prompted (maskedConfig (attemptMsg i)) '''' 1 (stl (tty w)) w)
                           \<lparr>trace := trace w @ [EvNewEx (maskedConfig (attemptMsg i)),
                                      EvWriteStdin '''', EvReadline, EvDecrypt blob (normalize E line)]\<rparr>
                in case nip49_Decrypt E blob (normalize E line) of
                     Inl err \<Rightarrow> promptDecrypt_loop E blob (i + 1) w2
                   | Inr sec \<Rightarrow> Some ((sec, None), w2))))"
  by (subst promptDecrypt_loop.simps)
     (simp add: askPassword_nil attemptMsg_def Decrypt_def prompted_def Let_def
       split: option.splits rl_event.splits sum.splits)

lemma promptDecrypt_loop_done:
  "\<not> i < 4 \<Longrightarrow> promptDecrypt_loop E blob i w = Some (('''', Some ErrCouldntDecrypt), w)"
  by (subst promptDecrypt_loop.simps) simp

lemma promptDecrypt_loop_spec:
  "\<exists>sec err w' evs.
     promptDecrypt_loop E blob i w = Some ((sec, err), w') \<and> trace w' = trace w @ evs \<and>
     decryptCalls evs \<le> 4 - i \<and>
     (case err of
        None \<Rightarrow> \<exists>password init. evs = init @ [EvDecrypt blob password] \<and>
                  list_all (notDecrypted E) init \<and> nip49_Decrypt E blob password = Inr sec
      | Some e \<Rightarrow> sec = '''' \<and> list_all (notDecrypted E) evs \<and>
                  (decryptCalls evs = 4 - i \<longrightarrow> e = ErrCouldntDecrypt))"
proof (induction "4 - i" arbitrary: i w)
  case 0
  then have "\<not> i < 4" by simp
  then show ?case
    by (simp add: promptDecrypt_loop_done)
next
  case (Suc k)
  then have i: "i < 4" by simp
  let ?cfg = "maskedConfig (attemptMsg i)"
  show ?case
  proof (cases "shd (newex w)")
    case (Some e)
    with i show ?thesis
      by (simp add: promptDecrypt_loop_step)
  next
    case None
    show ?thesis
    proof (cases "shd (tty w)")
      case (ReadErr e)
      with None i show ?thesis
        by (simp add: promptDecrypt_loop_step prompted_def)
    next
      case (Line line)
      let ?pre = "[EvNewEx ?cfg, EvWriteStdin '''', EvReadline, EvDecrypt blob (normalize E line)]"
      let ?w2 = "(prompted ?cfg '''' 1 (stl (tty w)) w)\<lparr>trace := trace w @ ?pre\<rparr>"
      show ?thesis
      proof (cases "nip49_Decrypt E blob (normalize E line)")
        case (Inr sec)
        with Line None i have "promptDecrypt_loop E blob i w = Some ((sec, None), ?w2)"
          by (simp add: promptDecrypt_loop_step)
        moreover have "trace ?w2 = trace w @ ?pre" by simp
        moreover have "decryptCalls ?pre \<le> 4 - i" using i by simp
        moreover have "?pre = [EvNewEx ?cfg, EvWriteStdin '''', EvReadline] @
                        [EvDecrypt blob (normalize E line)]" by simp
        moreover have "list_all (notDecrypted E) [EvNewEx ?cfg, EvWriteStdin '''', EvReadline]"
          by simp
        ultimately show ?thesis using Inr by (intro exI[of _ sec] exI[of _ None] exI[of _ ?w2] exI[of _ ?pre]) (simp only: option.case, blast)
      next
        case (Inl derr)
        with Line None i have step: "promptDecrypt_loop E blob i w =
            promptDecrypt_loop E blob (i + 1) ?w2"
          by (simp add: promptDecrypt_loop_step)
        from Suc.hyps(2) have "k = 4 - (i + 1)" by simp
        from Suc.hyps(1)[OF this, of ?w2] obtain sec err w' evs where
          r: "promptDecrypt_loop E blob (i + 1) ?w2 = Some ((sec, err), w')"
             "trace w' = trace ?w2 @ evs" "decryptCalls evs \<le> 4 - (i + 1)"
             "(case err of
                None \<Rightarrow> \<exists>password init. evs = init @ [EvDecrypt blob password] \<and>
                          list_all (notDecrypted E) init \<and> nip49_Decrypt E blob password = Inr sec
              | Some e \<Rightarrow> sec = '''' \<and> list_all (notDecrypted E) evs \<and>
                          (decryptCalls evs = 4 - (i + 1) \<longrightarrow> e = ErrCouldntDecrypt))"
          by blast
        have pre_ok: "list_all (notDecrypted E) ?pre" using Inl by simp
        have 1: "promptDecrypt_loop E blob i w = Some ((sec, err), w')" using step r(1) by simp
        have 2: "trace w' = trace w @ (?pre @ evs)" using r(2) by simp
        have 3: "decryptCalls (?pre @ evs) \<le> 4 - i" using r(3) i by simp
        have 4: "(case err of
                None \<Rightarrow> \<exists>password init. ?pre @ evs = init @ [EvDecrypt blob password] \<and>
                          list_all (notDecrypted E) init \<and> nip49_Decrypt E blob password = Inr sec
              | Some e \<Rightarrow> sec = '''' \<and> list_all (notDecrypted E) (?pre @ evs) \<and>
                          (decryptCalls (?pre @ evs) = 4 - i \<longrightarrow> e = ErrCouldntDecrypt))"
        proof (cases err)
          case None
          with r(4) obtain password init where
            "evs = init @ [EvDecrypt blob password]" "list_all (notDecrypted E) init"
            "nip49_Decrypt E blob password = Inr sec" by auto
          then have "?pre @ evs = (?pre @ init) @ [EvDecrypt blob password] \<and>
              list_all (notDecrypted E) (?pre @ init) \<and> nip49_Decrypt E blob password = Inr sec"
            using pre_ok by simp
          with None show ?thesis by (simp only: option.case) blast
        next
          case (Some e)
          with r(4) pre_ok i show ?thesis by auto
        qed
        from 1 2 3 4 show ?thesis by blast
      qed
    qed
  qed
qed

lemma promptDecrypt_loop_read_error:
  assumes "i + length pws < 4"
    and "\<forall>pw \<in> set pws. isl (nip49_Decrypt E blob (normalize E pw))"
    and "\<forall>j \<le> length pws. newex w !! j = None"
    and "tty w = map Line pws @- (ReadErr e ## rest)"
  shows "\<exists>w' evs. promptDecrypt_loop E blob i w = Some (('''', Some e), w') \<and> tty w' = rest \<and>
           trace w' = trace w @ evs @ [EvReadline] \<and> decryptCalls evs = length pws"
  using assms
proof (induction pws arbitrary: i w)
  case Nil
  then have "i < 4" "shd (newex w) = None" "shd (tty w) = ReadErr e" "stl (tty w) = rest"
    by simp_all
  then show ?case
    by (simp add: promptDecrypt_loop_step prompted_def)
next
  case (Cons pw pws)
  let ?pre = "[EvNewEx (maskedConfig (attemptMsg i)), EvWriteStdin '''', EvReadline,
               EvDecrypt blob (normalize E pw)]"
  let ?w2 = "(prompted (maskedConfig (attemptMsg i)) '''' 1 (stl (tty w)) w)\<lparr>trace := trace w @ ?pre\<rparr>"
  from Cons.prems have i: "i < 4" and nx: "shd (newex w) = None"
    and hd: "shd (tty w) = Line pw" by auto
  from Cons.prems(2) obtain derr where d: "nip49_Decrypt E blob (normalize E pw) = Inl derr"
    by (auto simp: isl_def)
  have step: "promptDecrypt_loop E blob i w = promptDecrypt_loop E blob (i + 1) ?w2"
    using i nx hd d by (simp add: promptDecrypt_loop_step)
  have a1: "(i + 1) + length pws < 4" using Cons.prems(1) by simp
  have a2: "\<forall>pw \<in> set pws. isl (nip49_Decrypt E blob (normalize E pw))"
    using Cons.prems(2) by simp
  have a3: "\<forall>j \<le> length pws. newex ?w2 !! j = None"
  proof (intro allI impI)
    fix j assume "j \<le> length pws"
    then have "Suc j \<le> length (pw # pws)" by simp
    with Cons.prems(3) have "newex w !! Suc j = None" by blast
    then show "newex ?w2 !! j = None" by (simp add: prompted_def)
  qed
  have a4: "tty ?w2 = map Line pws @- (ReadErr e ## rest)"
    using Cons.prems(4) by (simp add: prompted_def)
  from Cons.IH[OF a1 a2 a3 a4] obtain w' evs where
    r: "promptDecrypt_loop E blob (i + 1) ?w2 = Some (('''', Some e), w')" "tty w' = rest"
       "trace w' = trace ?w2 @ evs @ [EvReadline]" "decryptCalls evs = length pws"
    by blast
  show ?case
    using step r by (intro exI[of _ w'] exI[of _ "?pre @ evs"]) simp
qed

subsection \<open>What the steps of \<^verbatim>\<open>gatherSecretKeyOrBunker\<close> add to the trace\<close>

text \<open>Events that neither store the secret nor decrypt.\<close>

lemma quiet_terminal:
  "list_all isTerminal evs \<Longrightarrow> \<not> list_ex isStoreSecret evs \<and> decryptCalls evs = 0"
  by (induction evs) (auto elim: isTerminal.elims)

lemma list_all_replicate_Readline [simp]: "list_all isTerminal (replicate n EvReadline)"
  by (induction n) simp_all

lemma ask_impl_trace:
  assumes "ask_impl E config msg defaultValue p s w = Some ((answer, err), s', w')"
  shows "\<exists>evs. trace w' = trace w @ evs \<and> list_all isTerminal evs"
proof (cases "shd (newex w)")
  case (Some e)
  with assms have "trace w' = trace w @ [EvNewEx config]"
    by (auto simp: ask_impl_fail)
  then show ?thesis by simp
next
  case None
  let ?w1 = "w\<lparr>newex := stl (newex w),
                 trace := trace w @ [EvNewEx config, EvWriteStdin defaultValue]\<rparr>"
  from None assms have "ask_loop E p s ?w1 = Some ((answer, err), s', w')"
    by (simp add: ask_impl_ok)
  from ask_loop_postD[OF this] obtain n where
    "trace w' = trace ?w1 @ replicate (Suc n) EvReadline"
    unfolding ask_post_def by blast
  then have "trace w' = trace w @ ([EvNewEx config, EvWriteStdin defaultValue] @
      replicate (Suc n) EvReadline)" by simp
  moreover have "list_all isTerminal ([EvNewEx config, EvWriteStdin defaultValue] @
      replicate (Suc n) EvReadline)"
    unfolding list_all_append by simp
  ultimately show ?thesis by blast
qed

lemma confirm_trace:
  assumes "confirm E msg w = Some (confirmed, w')"
  shows "\<exists>evs. trace w' = trace w @ evs \<and> list_all isTerminal evs"
proof -
  from assms obtain answer err where
    "ask E (msg @ ''(y/n) '') '''' (Some confirm_shouldAskAgain) False w =
       Some ((answer, err), confirmed, w')"
    by (auto simp: confirm_def split: option.splits)
  then show ?thesis
    unfolding ask_def by (rule ask_impl_trace)
qed

lemma gatherSec_cases:
  assumes "gatherSec E c w = Some (Inr (sec, askToStore), w')"
  shows "(fst (lookupSec E c w) = sec \<and> sec \<noteq> '''' \<and> \<not> askToStore \<and> w' = snd (lookupSec E c w)) \<or>
         (fst (lookupSec E c w) = '''' \<and> sec \<noteq> '''' \<and>
          (\<exists>err. ask E ''input secret key (hex, nsec or ncryptsec): '' ''''
                   (Some (sec_shouldAskAgain E)) False (snd (lookupSec E c w)) =
                 Some ((sec, err), askToStore, w')))"
  using assms
  by (cases "lookupSec E c w")
     (auto simp: gatherSec_def Let_def split: if_splits option.splits prod.splits)

lemma gatherSec_trace:
  assumes "gatherSec E c w = Some (Inr (sec, askToStore), w')"
  shows "\<exists>evs. trace w' = trace w @ evs \<and> \<not> list_ex isStoreSecret evs \<and> decryptCalls evs = 0"
proof -
  let ?g = "if String_sec c = '''' \<and> \<not> IsSet_sec c
            then [EvGit [''config'', ''--local'', ''str.secretkey'']] else []"
  have g: "\<not> list_ex isStoreSecret ?g \<and> decryptCalls ?g = 0" by simp
  from gatherSec_cases[OF assms] show ?thesis
  proof
    assume "fst (lookupSec E c w) = sec \<and> sec \<noteq> '''' \<and> \<not> askToStore \<and> w' = snd (lookupSec E c w)"
    then have "trace w' = trace w @ ?g" by simp
    with g show ?thesis by blast
  next
    assume "fst (lookupSec E c w) = '''' \<and> sec \<noteq> '''' \<and>
          (\<exists>err. ask E ''input secret key (hex, nsec or ncryptsec): '' ''''
                   (Some (sec_shouldAskAgain E)) False (snd (lookupSec E c w)) =
                 Some ((sec, err), askToStore, w'))"
    then obtain err where "ask E ''input secret key (hex, nsec or ncryptsec): '' ''''
                   (Some (sec_shouldAskAgain E)) False (snd (lookupSec E c w)) =
                 Some ((sec, err), askToStore, w')" by blast
    from ask_impl_trace[OF this[unfolded ask_def]] obtain evs where
      evs: "trace w' = trace (snd (lookupSec E c w)) @ evs" "list_all isTerminal evs" by blast
    then have "trace w' = trace w @ (?g @ evs)" by simp
    moreover from quiet_terminal[OF evs(2)] g
    have "\<not> list_ex isStoreSecret (?g @ evs) \<and> decryptCalls (?g @ evs) = 0" by simp
    ultimately show ?thesis by blast
  qed
qed

lemma gatherSec_askToStore:
  assumes "gatherSec E c w = Some (Inr (sec, True), w')"
  shows "fst (lookupSec E c w) = ''''"
  using gatherSec_cases[OF assms] by auto

lemma connectBunker_result:
  assumes "nip46_ConnectBunker E (shd (keys w)) url = (bunker, err)"
  shows "fst (connectBunker E url w) = (bunker, '''', False, err)"
    and "trace (snd (connectBunker E url w)) =
           trace w @ [EvGeneratePrivateKey, EvConnectBunker (shd (keys w)) url] @
           (if bunker \<noteq> None then [EvGit [''config'', ''--local'', ''str.bunker'', url]] else [])"
    and "keys (snd (connectBunker E url w)) = stl (keys w)"
    and "tty (snd (connectBunker E url w)) = tty w"
    and "newex (snd (connectBunker E url w)) = newex w"
  using assms
  by (simp_all add: connectBunker_def GeneratePrivateKey_def ConnectBunker_def Let_def)

lemma finishSec_plain:
  assumes "finishSec E c sec askToStore w = Some ((None, key, False, None), w')"
  shows "\<exists>confirmed w1.
           (if askToStore
            then confirm E ''store the secret key on git config? '' w = Some (confirmed, w1)
            else \<not> confirmed \<and> w1 = w) \<and>
           w' = (if confirmed \<or> Bool_store_sec c
                 then snd (git E [''config'', ''--local'', ''str.secretkey'', key] w1) else w1)"
proof -
  let ?decoded = "if HasPrefix sec ''nsec1'' then
                 (case nip19_Decode E sec of
                    Inl err \<Rightarrow> Inl (ErrInvalidNsec err)
                  | Inr hex \<Rightarrow> Inr hex)
               else Inr sec"
  let ?asked = "if askToStore then confirm E ''store the secret key on git config? '' w
                else Some (False, w)"
  have plain: "\<not> HasPrefix sec ''ncryptsec1''"
    using assms by (auto simp: finishSec_def)
  obtain sec' where d: "?decoded = Inr sec'"
  proof (cases ?decoded)
    case (Inl err)
    with assms plain have False unfolding finishSec_def by simp
    then show ?thesis ..
  qed
  have valid: "IsValid32ByteHex E sec'"
  proof (rule ccontr)
    assume "\<not> IsValid32ByteHex E sec'"
    with assms plain d show False unfolding finishSec_def by simp
  qed
  obtain confirmed w1 where a: "?asked = Some (confirmed, w1)"
  proof (cases ?asked)
    case None
    with assms plain d valid have False unfolding finishSec_def by simp
    then show ?thesis ..
  next
    case (Some r)
    with that show ?thesis by (cases r) blast
  qed
  from assms plain d valid a
  have "key = sec'" and "w' = (if confirmed \<or> Bool_store_sec c
                 then snd (git E [''config'', ''--local'', ''str.secretkey'', sec'] w1) else w1)"
    unfolding finishSec_def by simp_all
  moreover from a have "if askToStore
            then confirm E ''store the secret key on git config? '' w = Some (confirmed, w1)
            else \<not> confirmed \<and> w1 = w"
    by (cases askToStore) auto
  ultimately show ?thesis by blast
qed

lemma HasPrefix_prefix: "HasPrefix s p = prefix p s"
proof
  assume "HasPrefix s p"
  then have "s = p @ drop (length p) s"
    by (metis HasPrefix_def append_take_drop_id)
  then show "prefix p s" by (metis prefixI)
next
  assume "prefix p s"
  then show "HasPrefix s p" by (auto simp: HasPrefix_def prefix_def)
qed

lemma nsec1_not_ncryptsec1:
  assumes "HasPrefix s ''nsec1''"
  shows "\<not> HasPrefix s ''ncryptsec1''" and "s \<noteq> ''''"
proof -
  from assms obtain zs where "s = ''nsec1'' @ zs"
    by (auto simp: HasPrefix_prefix prefix_def)
  then show "\<not> HasPrefix s ''ncryptsec1''" and "s \<noteq> ''''"
    by (simp_all add: HasPrefix_prefix)
qed

subsection \<open>The reference \<^verbatim>\<open>git config\<close> on line 37\<close>

text \<open>
  Line 37 calls \<^verbatim>\<open>git config --local str.bunker\<close> with the (empty) address as a further
  argument. With the reference behaviour \<open>git_config\<close> that call sets the name to the empty
  string and prints nothing, so the address stays empty when the flag \<^verbatim>\<open>--connect\<close> is.
\<close>

lemma lookupBunkerURL_git_config:
  assumes "exec_git E = git_config" and "String_connect c = ''''"
    and "strings_TrimSpace E '''' = ''''"
  shows "fst (lookupBunkerURL E c w) = ''''"
    and "gitst (snd (lookupBunkerURL E c w)) = (gitst w)(''str.bunker'' \<mapsto> '''')"
  using assms by (simp_all add: lookupBunkerURL_def git_def)

subsection \<open>The connect path\<close>

text \<open>
  When lines 35 to 38 leave an address that is not empty, \<^verbatim>\<open>gatherSecretKeyOrBunker\<close>
  generates a client key, calls \<^verbatim>\<open>nip46.ConnectBunker\<close> once with that key and the address,
  and returns the handle and the error of that call. It runs
  \<^verbatim>\<open>git config --local str.bunker\<close> with the address exactly when a handle came back. It
  opens no prompt, reads no line, and no call of \<^verbatim>\<open>git\<close> names the stored secret.
\<close>

lemma connect_when_address_found:
  assumes "lookupBunkerURL E c w = (url, w1)" and "url \<noteq> ''''"
    and "nip46_ConnectBunker E (shd (keys w)) url = (bunker, err)"
  shows "\<exists>w' evs.
           gatherSecretKeyOrBunker E c w = Some ((bunker, '''', False, err), w') \<and>
           trace w' = trace w @ evs \<and>
           evs = (if String_connect c = ''''
                  then [EvGit [''config'', ''--local'', ''str.bunker'', '''']] else []) @
                 [EvGeneratePrivateKey, EvConnectBunker (shd (keys w)) url] @
                 (if bunker \<noteq> None then [EvGit [''config'', ''--local'', ''str.bunker'', url]]
                  else []) \<and>
           \<not> list_ex isTerminal evs \<and> \<not> list_ex touchesSecret evs \<and>
           gitst w' =
             (if bunker \<noteq> None
              then snd (exec_git E [''config'', ''--local'', ''str.bunker'', url] (gitst w1))
              else gitst w1) \<and>
           keys w' = stl (keys w) \<and> tty w' = tty w \<and> newex w' = newex w"
proof -
  from assms(1) have f: "trace w1 = trace w @ (if String_connect c = ''''
                  then [EvGit [''config'', ''--local'', ''str.bunker'', '''']] else [])"
      "keys w1 = keys w" "tty w1 = tty w" "newex w1 = newex w"
    using lookupBunkerURL_fields[of E c w] by simp_all
  from assms(3) f(2) have cb: "nip46_ConnectBunker E (shd (keys w1)) url = (bunker, err)"
    by simp
  have "connectBunker E url w1 = ((bunker, '''', False, err), snd (connectBunker E url w1))"
    using connectBunker_result(1)[OF cb] by (metis prod.collapse)
  then have run: "gatherSecretKeyOrBunker E c w =
      Some ((bunker, '''', False, err), snd (connectBunker E url w1))"
    using assms(1,2) by (simp add: gatherSecretKeyOrBunker_def)
  have g: "gitst (snd (connectBunker E url w1)) =
             (if bunker \<noteq> None
              then snd (exec_git E [''config'', ''--local'', ''str.bunker'', url] (gitst w1))
              else gitst w1)"
    using cb by (simp add: connectBunker_def GeneratePrivateKey_def ConnectBunker_def Let_def)
  show ?thesis
    using run connectBunker_result(2-5)[OF cb] f g
    by (intro exI[of _ "snd (connectBunker E url w1)"]) simp
qed

section \<open>The claims\<close>

text \<open>
  C1. In every run of \<^verbatim>\<open>gatherSecretKeyOrBunker\<close> that returns a plain key, if the run wrote
  the stored secret (\<^verbatim>\<open>git config --local str.secretkey <value>\<close>), then the flag
  \<^verbatim>\<open>--store-sec\<close> was set, or the secret came from the prompt (neither the flag \<^verbatim>\<open>--sec\<close>
  nor the configuration gave one), was accepted there in a plain form, and \<^verbatim>\<open>confirm\<close>,
  asked after that, returned true.
\<close>

theorem plain_key_store_needs_consent:
  assumes "gatherSecretKeyOrBunker E c w = Some ((None, key, False, None), w')"
  shows "\<exists>evs. trace w' = trace w @ evs \<and>
           (list_ex isStoreSecret evs \<longrightarrow>
              Bool_store_sec c \<or>
              (\<exists>sec w2 w3.
                 fst (lookupSec E c (snd (lookupBunkerURL E c w))) = '''' \<and>
                 gatherSec E c (snd (lookupBunkerURL E c w)) = Some (Inr (sec, True), w2) \<and>
                 confirm E ''store the secret key on git config? '' w2 = Some (True, w3)))"
proof -
  obtain url w1 where w1: "lookupBunkerURL E c w = (url, w1)"
    by (cases "lookupBunkerURL E c w")
  let ?b = "if String_connect c = ''''
            then [EvGit [''config'', ''--local'', ''str.bunker'', '''']] else []"
  have t1: "trace w1 = trace w @ ?b" and k1: "keys w1 = keys w"
    using lookupBunkerURL_fields[of E c w] w1 by simp_all
  have b: "\<not> list_ex isStoreSecret ?b" by simp
  show ?thesis
  proof (cases "url = ''''")
    case False
    obtain bunker err where cb: "nip46_ConnectBunker E (shd (keys w1)) url = (bunker, err)"
      by (cases "nip46_ConnectBunker E (shd (keys w1)) url")
    from False w1 assms have r: "connectBunker E url w1 = ((None, key, False, None), w')"
      by (simp add: gatherSecretKeyOrBunker_def)
    with connectBunker_result(1)[OF cb] have "bunker = None" by simp
    with connectBunker_result(2)[OF cb] r
    have "trace w' = trace w @ (?b @ [EvGeneratePrivateKey, EvConnectBunker (shd (keys w1)) url])"
      using t1 by simp
    moreover have "\<not> list_ex isStoreSecret
        (?b @ [EvGeneratePrivateKey, EvConnectBunker (shd (keys w1)) url])" by simp
    ultimately show ?thesis by blast
  next
    case True
    with w1 assms obtain sec askToStore w2 where
      gs: "gatherSec E c w1 = Some (Inr (sec, askToStore), w2)"
      and fin: "finishSec E c sec askToStore w2 = Some ((None, key, False, None), w')"
      by (auto simp: gatherSecretKeyOrBunker_def split: option.splits sum.splits)
    from gatherSec_trace[OF gs] obtain evs1 where
      e1: "trace w2 = trace w1 @ evs1" "\<not> list_ex isStoreSecret evs1" by blast
    from finishSec_plain[OF fin] obtain confirmed w3 where
      cf: "if askToStore
           then confirm E ''store the secret key on git config? '' w2 = Some (confirmed, w3)
           else \<not> confirmed \<and> w3 = w2"
      and w': "w' = (if confirmed \<or> Bool_store_sec c
                 then snd (git E [''config'', ''--local'', ''str.secretkey'', key] w3) else w3)"
      by blast
    have "\<exists>evs2. trace w3 = trace w2 @ evs2 \<and> \<not> list_ex isStoreSecret evs2"
    proof (cases askToStore)
      case True
      with cf have "confirm E ''store the secret key on git config? '' w2 = Some (confirmed, w3)"
        by simp
      from confirm_trace[OF this] show ?thesis using quiet_terminal by blast
    next
      case False
      with cf have "trace w3 = trace w2 @ []" by simp
      then show ?thesis by (intro exI[of _ "[]"]) simp
    qed
    then obtain evs2 where e2: "trace w3 = trace w2 @ evs2" "\<not> list_ex isStoreSecret evs2"
      by blast
    show ?thesis
    proof (cases "confirmed \<or> Bool_store_sec c")
      case False
      with w' e1 e2 t1 have "trace w' = trace w @ (?b @ evs1 @ evs2)" by simp
      moreover have "\<not> list_ex isStoreSecret (?b @ evs1 @ evs2)" using e1(2) e2(2) by simp
      ultimately show ?thesis by blast
    next
      case stored: True
      from w' stored e1 e2 t1 have t: "trace w' = trace w @ (?b @ evs1 @ evs2 @
          [EvGit [''config'', ''--local'', ''str.secretkey'', key]])" by simp
      have "Bool_store_sec c \<or>
              (\<exists>sec w2 w3.
                 fst (lookupSec E c (snd (lookupBunkerURL E c w))) = '''' \<and>
                 gatherSec E c (snd (lookupBunkerURL E c w)) = Some (Inr (sec, True), w2) \<and>
                 confirm E ''store the secret key on git config? '' w2 = Some (True, w3))"
      proof (cases "Bool_store_sec c")
        case False
        with stored have c: confirmed by simp
        with cf have a: askToStore by (cases askToStore) simp_all
        with cf c have "confirm E ''store the secret key on git config? '' w2 = Some (True, w3)"
          by simp
        moreover from gs a have "gatherSec E c w1 = Some (Inr (sec, True), w2)" by simp
        moreover from gatherSec_askToStore[OF this] have "fst (lookupSec E c w1) = ''''" .
        ultimately show ?thesis using w1 by auto
      qed simp
      with t show ?thesis by blast
    qed
  qed
qed

text \<open>The user types a key in hex at the secret prompt and answers \<^verbatim>\<open>y\<close>: the key is stored,
  the flag \<^verbatim>\<open>--store-sec\<close> is not set, \<^verbatim>\<open>confirm\<close> returned true.\<close>

theorem plain_key_store_needs_consent_witness:
  "map_option fst (gatherSecretKeyOrBunker env0 flags0 (world0 (typed [hexKey, ''y'']))) =
     Some (None, hexKey, False, None) \<and>
   map_option (list_ex isStoreSecret \<circ> trace \<circ> snd)
     (gatherSecretKeyOrBunker env0 flags0 (world0 (typed [hexKey, ''y'']))) = Some True \<and>
   \<not> Bool_store_sec flags0 \<and>
   (\<exists>sec w2 w3.
      fst (lookupSec env0 flags0 (snd (lookupBunkerURL env0 flags0
             (world0 (typed [hexKey, ''y'']))))) = '''' \<and>
      gatherSec env0 flags0 (snd (lookupBunkerURL env0 flags0 (world0 (typed [hexKey, ''y''])))) =
        Some (Inr (sec, True), w2) \<and>
      confirm env0 ''store the secret key on git config? '' w2 = Some (True, w3))"
proof -
  let ?run = "gatherSecretKeyOrBunker env0 flags0 (world0 (typed [hexKey, ''y'']))"
  have r: "map_option fst ?run = Some (None, hexKey, False, None)"
    and s: "map_option (list_ex isStoreSecret \<circ> trace \<circ> snd) ?run = Some True"
    by (simp_all add: run_eval)
  from r obtain w' where h: "?run = Some ((None, hexKey, False, None), w')" by auto
  have f: "\<not> Bool_store_sec flags0" by (simp add: flags0_def)
  from plain_key_store_needs_consent[OF h] obtain evs where
    evs: "trace w' = trace (world0 (typed [hexKey, ''y''])) @ evs"
    and imp: "list_ex isStoreSecret evs \<longrightarrow>
              Bool_store_sec flags0 \<or>
              (\<exists>sec w2 w3.
                 fst (lookupSec env0 flags0 (snd (lookupBunkerURL env0 flags0
                        (world0 (typed [hexKey, ''y'']))))) = '''' \<and>
                 gatherSec env0 flags0 (snd (lookupBunkerURL env0 flags0
                        (world0 (typed [hexKey, ''y''])))) = Some (Inr (sec, True), w2) \<and>
                 confirm env0 ''store the secret key on git config? '' w2 = Some (True, w3))"
    by blast
  from evs have "trace w' = evs" by (simp add: world0_def)
  with s h have "list_ex isStoreSecret evs" by simp
  with imp f r s show ?thesis by blast
qed

text \<open>
  C2. \<^verbatim>\<open>promptDecrypt\<close> always returns, after at most three calls of \<^verbatim>\<open>nip49.Decrypt\<close>.
  When it returns a key, the last thing it did is a call of \<^verbatim>\<open>Decrypt\<close> that succeeded,
  the key is the result of that call, and every call before it failed. When it returns
  an error, the key is empty and every call failed; after three failed calls the error is
  the one of line 213, which carries none of the three errors of \<^verbatim>\<open>Decrypt\<close>.
\<close>

theorem promptDecrypt_spec:
  "\<exists>sec err w' evs.
     promptDecrypt E blob w = Some ((sec, err), w') \<and> trace w' = trace w @ evs \<and>
     decryptCalls evs \<le> 3 \<and>
     (case err of
        None \<Rightarrow> \<exists>password init. evs = init @ [EvDecrypt blob password] \<and>
                  list_all (notDecrypted E) init \<and> nip49_Decrypt E blob password = Inr sec
      | Some e \<Rightarrow> sec = '''' \<and> list_all (notDecrypted E) evs \<and>
                  (decryptCalls evs = 3 \<longrightarrow> e = ErrCouldntDecrypt))"
proof -
  have three: "4 - (1::nat) = 3" by simp
  show ?thesis
    using promptDecrypt_loop_spec[of E blob 1 w] unfolding promptDecrypt_def three .
qed

text \<open>Three wrong passphrases; and a wrong one followed by the right one.\<close>

theorem promptDecrypt_spec_witness:
  "map_option fst (promptDecrypt env0 ''ncryptsec1blob'' (world0 (typed [''a'', ''b'', ''c'']))) =
     Some ('''', Some ErrCouldntDecrypt) \<and>
   map_option (decryptCalls \<circ> trace \<circ> snd)
     (promptDecrypt env0 ''ncryptsec1blob'' (world0 (typed [''a'', ''b'', ''c'']))) = Some 3 \<and>
   map_option fst (promptDecrypt env0 ''ncryptsec1blob'' (world0 (typed [''a'', ''Hunter2'', ''c'']))) =
     Some (hexKey, None) \<and>
   map_option (decryptCalls \<circ> trace \<circ> snd)
     (promptDecrypt env0 ''ncryptsec1blob'' (world0 (typed [''a'', ''Hunter2'', ''c'']))) = Some 2"
proof -
  let ?run3 = "promptDecrypt env0 ''ncryptsec1blob'' (world0 (typed [''a'', ''b'', ''c'']))"
  let ?run2 = "promptDecrypt env0 ''ncryptsec1blob'' (world0 (typed [''a'', ''Hunter2'', ''c'']))"
  have c3: "map_option (decryptCalls \<circ> trace \<circ> snd) ?run3 = Some 3"
    by (simp add: promptDecrypt_def promptDecrypt_loop_step promptDecrypt_loop_done
        world0_def typed_def env0_def prompted_def normalize_eval)
  have c2: "map_option (decryptCalls \<circ> trace \<circ> snd) ?run2 = Some 2"
    and k2: "map_option (fst \<circ> fst) ?run2 = Some hexKey"
    by (simp_all add: promptDecrypt_def promptDecrypt_loop_step promptDecrypt_loop_done
        world0_def typed_def env0_def prompted_def normalize_eval)
  from promptDecrypt_spec[of env0 "''ncryptsec1blob''" "world0 (typed [''a'', ''b'', ''c''])"]
  obtain sec err w' evs where
    r: "?run3 = Some ((sec, err), w')" "trace w' = evs"
      "(case err of
        None \<Rightarrow> \<exists>password init. evs = init @ [EvDecrypt ''ncryptsec1blob'' password] \<and>
                  list_all (notDecrypted env0) init \<and>
                  nip49_Decrypt env0 ''ncryptsec1blob'' password = Inr sec
      | Some e \<Rightarrow> sec = '''' \<and> list_all (notDecrypted env0) evs \<and>
                  (decryptCalls evs = 3 \<longrightarrow> e = ErrCouldntDecrypt))"
    by (auto simp: world0_def)
  from r(1,2) c3 have n3: "decryptCalls evs = 3" by simp
  have "err \<noteq> None"
  proof
    assume "err = None"
    with r(3) obtain password init where
      e: "evs = init @ [EvDecrypt ''ncryptsec1blob'' password]"
         "nip49_Decrypt env0 ''ncryptsec1blob'' password = Inr sec" by auto
    have "map_option (list_all (notDecrypted env0) \<circ> trace \<circ> snd) ?run3 = Some True"
      by (simp add: promptDecrypt_def promptDecrypt_loop_step promptDecrypt_loop_done
        world0_def typed_def env0_def prompted_def normalize_eval)
    with r(1,2) have "list_all (notDecrypted env0) evs" by simp
    with e show False by simp
  qed
  with r(3) n3 have "sec = '''' \<and> err = Some ErrCouldntDecrypt" by auto
  with r(1) have 1: "map_option fst ?run3 = Some ('''', Some ErrCouldntDecrypt)" by simp
  from promptDecrypt_spec[of env0 "''ncryptsec1blob''" "world0 (typed [''a'', ''Hunter2'', ''c''])"]
  obtain sec2 err2 w2 where
    r2: "?run2 = Some ((sec2, err2), w2)"
      "(case err2 of None \<Rightarrow> True | Some e \<Rightarrow> sec2 = '''')"
    by (auto split: option.splits)
  from r2(1) k2 have "sec2 = hexKey" by simp
  with r2(2) have "err2 = None" by (cases err2) (simp_all add: hexKey_def)
  with r2(1) \<open>sec2 = hexKey\<close> have 2: "map_option fst ?run2 = Some (hexKey, None)" by simp
  from 1 c3 2 c2 show ?thesis by blast
qed

text \<open>
  C3, as the code has it. The callback of the secret prompt looks at the prefix only: a line
  whose normal form starts with \<^verbatim>\<open>nsec1\<close> is accepted at once and no other line is read.
  When \<^verbatim>\<open>nip19.Decode\<close> then fails on it, as on \<^verbatim>\<open>nsec1invalid\<close>,
  \<^verbatim>\<open>gatherSecretKeyOrBunker\<close> fails with the error of line 82, which wraps the error of
  \<^verbatim>\<open>Decode\<close>. When \<^verbatim>\<open>Decode\<close> gives the hex form of a 32-byte key, that hex form is the
  plain key returned, once \<^verbatim>\<open>confirm\<close> has returned.
\<close>

theorem nsec_at_prompt:
  assumes "fst (lookupBunkerURL E c w) = ''''"
    and "fst (lookupSec E c (snd (lookupBunkerURL E c w))) = ''''"
    and "shd (newex w) = None" and "shd (tty w) = Line line"
    and "HasPrefix (normalize E line) ''nsec1''"
    and "w2 = prompted (plainConfig ''input secret key (hex, nsec or ncryptsec): '') '''' 1
                (stl (tty w)) (snd (lookupSec E c (snd (lookupBunkerURL E c w))))"
  shows "(nip19_Decode E (normalize E line) = Inl derr \<longrightarrow>
            gatherSecretKeyOrBunker E c w =
              Some ((None, '''', False, Some (ErrInvalidNsec derr)), w2) \<and>
            tty w2 = stl (tty w)) \<and>
         (nip19_Decode E (normalize E line) = Inr hex \<and> IsValid32ByteHex E hex \<and>
            confirm E ''store the secret key on git config? '' w2 = Some (confirmed, w3) \<longrightarrow>
            map_option fst (gatherSecretKeyOrBunker E c w) = Some (None, hex, False, None))"
proof -
  let ?msg = "''input secret key (hex, nsec or ncryptsec): ''"
  obtain w0 where w0: "lookupBunkerURL E c w = ('''', w0)"
    using assms(1) by (cases "lookupBunkerURL E c w") simp
  obtain w1 where w1: "lookupSec E c w0 = ('''', w1)"
    using assms(2) w0 by (cases "lookupSec E c w0") simp
  have f1: "shd (newex w1) = None" "tty w1 = tty w"
    using assms(3) lookupBunkerURL_fields(1,2)[of E c w] lookupSec_fields(1,2)[of E c w0] w0 w1
    by simp_all
  have w2: "w2 = prompted (plainConfig ?msg) '''' 1 (stl (tty w)) w1"
    using assms(6) w0 w1 by simp
  have ne: "normalize E line \<noteq> ''''" and nc: "\<not> HasPrefix (normalize E line) ''ncryptsec1''"
    using nsec1_not_ncryptsec1[OF assms(5)] by simp_all
  have acc: "sec_shouldAskAgain E (normalize E line) False = (False, True)"
    using assms(5) by (simp add: sec_shouldAskAgain_def)
  have "tty w1 = map Line [] @- (Line line ## stl (tty w))"
    using f1(2) assms(4) by (simp, metis stream.collapse)
  from ask_impl_after_rejected[where f = "sec_shouldAskAgain E" and s = False and pre = "[]"
      and config = "plainConfig ?msg" and msg = ?msg and defaultValue = "''''", OF _ this f1(1)]
  have "ask E ?msg '''' (Some (sec_shouldAskAgain E)) False w1 =
      Some ((normalize E line, None), True, w2)"
    by (simp add: ask_def acc w2)
  then have gs: "gatherSec E c w0 = Some (Inr (normalize E line, True), w2)"
    using w1 ne by (simp add: gatherSec_def)
  have run: "gatherSecretKeyOrBunker E c w = finishSec E c (normalize E line) True w2"
    using w0 gs by (simp add: gatherSecretKeyOrBunker_def)
  have "tty w2 = stl (tty w)" by (simp add: w2 prompted_def)
  moreover have "finishSec E c (normalize E line) True w2 =
      Some ((None, '''', False, Some (ErrInvalidNsec derr)), w2)"
    if "nip19_Decode E (normalize E line) = Inl derr"
    using that nc assms(5) by (simp add: finishSec_def)
  moreover have "map_option fst (finishSec E c (normalize E line) True w2) =
      Some (None, hex, False, None)"
    if "nip19_Decode E (normalize E line) = Inr hex \<and> IsValid32ByteHex E hex \<and>
        confirm E ''store the secret key on git config? '' w2 = Some (confirmed, w3)"
    using that nc assms(5) by (simp add: finishSec_def)
  ultimately show ?thesis using run by simp
qed

text \<open>The user types \<^verbatim>\<open>nsec1invalid\<close>; and the user types a well-formed key and declines to
  store it.\<close>

theorem nsec_at_prompt_witness:
  "map_option fst (gatherSecretKeyOrBunker env0 flags0 (world0 (typed [''nsec1invalid'', nsecKey, ''n'']))) =
     Some (None, '''', False, Some (ErrInvalidNsec (ErrExternal ''invalid bech32 string''))) \<and>
   map_option (tty \<circ> snd)
     (gatherSecretKeyOrBunker env0 flags0 (world0 (typed [''nsec1invalid'', nsecKey, ''n'']))) =
     Some (typed [nsecKey, ''n'']) \<and>
   map_option fst (gatherSecretKeyOrBunker env0 flags0 (world0 (typed [nsecKey, ''n'']))) =
     Some (None, hexKey, False, None)"
proof -
  let ?msg = "''input secret key (hex, nsec or ncryptsec): ''"
  let ?wa = "world0 (typed [''nsec1invalid'', nsecKey, ''n''])"
  let ?wb = "world0 (typed [nsecKey, ''n''])"
  have na: "normalize env0 ''nsec1invalid'' = ''nsec1invalid''"
    and nb: "normalize env0 nsecKey = nsecKey"
    by (simp_all add: normalize_eval nsecKey_def)
  have pa: "HasPrefix (normalize env0 ''nsec1invalid'') ''nsec1''"
    and pb: "HasPrefix (normalize env0 nsecKey) ''nsec1''"
    unfolding na nb by (simp_all add: HasPrefix_def nsecKey_def)
  have la: "fst (lookupBunkerURL env0 flags0 ?wa) = ''''"
    "fst (lookupSec env0 flags0 (snd (lookupBunkerURL env0 flags0 ?wa))) = ''''"
    "shd (newex ?wa) = None" "shd (tty ?wa) = Line ''nsec1invalid''"
    and lb: "fst (lookupBunkerURL env0 flags0 ?wb) = ''''"
    "fst (lookupSec env0 flags0 (snd (lookupBunkerURL env0 flags0 ?wb))) = ''''"
    "shd (newex ?wb) = None" "shd (tty ?wb) = Line nsecKey"
    by (simp_all add: lookupBunkerURL_def lookupSec_def git_def env0_def flags0_def world0_def
        typed_def normalize_eval)
  have da: "nip19_Decode env0 (normalize env0 ''nsec1invalid'') =
      Inl (ErrExternal ''invalid bech32 string'')"
    and db: "nip19_Decode env0 (normalize env0 nsecKey) = Inr hexKey" "IsValid32ByteHex env0 hexKey"
    unfolding na nb by (simp_all add: env0_def nsecKey_def hexKey_def isHex64_def)
  let ?w2 = "prompted (plainConfig ?msg) '''' 1 (stl (tty ?wb))
      (snd (lookupSec env0 flags0 (snd (lookupBunkerURL env0 flags0 ?wb))))"
  have "\<exists>w3. confirm env0 ''store the secret key on git config? '' ?w2 = Some (False, w3)"
    by (simp add: run_eval prompted_def)
  then obtain w3 where cf: "confirm env0 ''store the secret key on git config? '' ?w2 = Some (False, w3)" ..
  from nsec_at_prompt[OF la pa refl, THEN conjunct1] da
  have 1: "map_option fst (gatherSecretKeyOrBunker env0 flags0 ?wa) =
     Some (None, '''', False, Some (ErrInvalidNsec (ErrExternal ''invalid bech32 string'')))"
    and 2: "map_option (tty \<circ> snd) (gatherSecretKeyOrBunker env0 flags0 ?wa) =
     Some (typed [nsecKey, ''n''])"
    by (simp_all add: prompted_def world0_def typed_def)
  from nsec_at_prompt[OF lb pb refl, THEN conjunct2] db cf
  have 3: "map_option fst (gatherSecretKeyOrBunker env0 flags0 ?wb) =
     Some (None, hexKey, False, None)"
    by blast
  from 1 2 3 show ?thesis by blast
qed

text \<open>C3 as stated fails: after \<^verbatim>\<open>nsec1invalid\<close> the prompt does not ask again, and the
  well-formed key typed next is never read.\<close>

theorem malformed_nsec_not_reprompted:
  "map_option fst (gatherSecretKeyOrBunker env0 flags0
       (world0 (typed [''nsec1invalid'', nsecKey, ''n'']))) =
     Some (None, '''', False, Some (ErrInvalidNsec (ErrExternal ''invalid bech32 string''))) \<and>
   map_option fst (gatherSecretKeyOrBunker env0 flags0
       (world0 (typed [''nsec1invalid'', nsecKey, ''n'']))) \<noteq>
     Some (None, hexKey, False, None) \<and>
   map_option (tty \<circ> snd) (gatherSecretKeyOrBunker env0 flags0
       (world0 (typed [''nsec1invalid'', nsecKey, ''n'']))) = Some (typed [nsecKey, ''n''])"
  by (simp add: run_eval)

text \<open>
  C4. The claim is that the masked prompt keeps the case of what is typed. The code does
  not: \<^verbatim>\<open>askPassword\<close> goes through \<^verbatim>\<open>_ask\<close>, whose line 247 lower-cases every answer, masked or
  not. The passphrase \<^verbatim>\<open>Hunter2\<close> typed at the masked prompt comes back as \<^verbatim>\<open>hunter2\<close>, and
  that is what \<^verbatim>\<open>promptDecrypt\<close> hands to \<^verbatim>\<open>nip49.Decrypt\<close>: with a key that \<^verbatim>\<open>Hunter2\<close>
  decrypts, typing \<^verbatim>\<open>Hunter2\<close> three times ends in the error of line 213.
\<close>

theorem passphrase_case_lost:
  "map_option fst (askPassword env0 ''type the password to decrypt your secret key: '' None ()
       (world0 (typed [''Hunter2'']))) = Some (''hunter2'', None) \<and>
   nip49_Decrypt envCase ''ncryptsec1blob'' ''Hunter2'' = Inr hexKey \<and>
   map_option fst (promptDecrypt envCase ''ncryptsec1blob''
       (world0 (typed [''Hunter2'', ''Hunter2'', ''Hunter2'']))) =
     Some ('''', Some ErrCouldntDecrypt)"
proof -
  have "map_option fst (askPassword env0 ''type the password to decrypt your secret key: '' None ()
       (world0 (typed [''Hunter2'']))) = Some (''hunter2'', None)"
    by (simp add: askPassword_def ask_impl_def world0_def typed_def ask_loop.simps normalize_eval)
  moreover have "nip49_Decrypt envCase ''ncryptsec1blob'' ''Hunter2'' = Inr hexKey"
    by (simp add: envCase_def)
  moreover have "map_option fst (promptDecrypt envCase ''ncryptsec1blob''
       (world0 (typed [''Hunter2'', ''Hunter2'', ''Hunter2'']))) =
     Some ('''', Some ErrCouldntDecrypt)"
    by (simp add: promptDecrypt_def promptDecrypt_loop_step promptDecrypt_loop_done
        world0_def typed_def envCase_def env0_def prompted_def asciiTrimSpace_def
        asciiToLower_def toLowerChar_def upperLetters_def lowerLetters_def isSpace_def)
  ultimately show ?thesis by blast
qed

text \<open>
  C5. Whatever the prompt, the default value and the callback \<open>shouldRetry\<close>: when \<^verbatim>\<open>_ask\<close>
  returns without error, it has read some lines \<open>pre\<close> and then a line, it has called
  \<open>shouldRetry\<close> on the normal form of each in turn, every call on a line of \<open>pre\<close> returned
  true, and the call on the last line returned false; the answer is the normal form of that
  last line. So the answer returned is never one on which the call of \<open>shouldRetry\<close>
  returned true. When \<^verbatim>\<open>_ask\<close> returns an error, the answer is empty and the error is the one
  of \<^verbatim>\<open>readline.NewEx\<close>, or the one of a read that came after lines that were all rejected.
\<close>

theorem ask_returns_only_accepted:
  assumes "ask_impl E config msg defaultValue (Some shouldRetry) s w = Some ((answer, err), s', w')"
  shows "case err of
           None \<Rightarrow>
             \<exists>pre line. tty w = map Line pre @- (Line line ## tty w') \<and>
               rejected shouldRetry s (map (normalize E) pre) \<and>
               answer = normalize E line \<and>
               shouldRetry answer (replay shouldRetry s (map (normalize E) pre)) = (False, s')
         | Some e \<Rightarrow>
             answer = '''' \<and>
             (if shd (newex w) = None
              then \<exists>pre. tty w = map Line pre @- (ReadErr e ## tty w') \<and>
                     rejected shouldRetry s (map (normalize E) pre) \<and>
                     s' = replay shouldRetry s (map (normalize E) pre)
              else shd (newex w) = Some e \<and> s' = s \<and> tty w' = tty w)"
proof (cases "shd (newex w)")
  case (Some e)
  with assms have "answer = [] \<and> err = Some e \<and> s' = s \<and> tty w' = tty w"
    by (auto simp: ask_impl_fail)
  with Some show ?thesis by simp
next
  case None
  let ?w1 = "w\<lparr>newex := stl (newex w),
                 trace := trace w @ [EvNewEx config, EvWriteStdin defaultValue]\<rparr>"
  from None assms have "ask_loop E (Some shouldRetry) s ?w1 = Some ((answer, err), s', w')"
    by (simp add: ask_impl_ok)
  from ask_loop_postD[OF this] obtain pre ev where
    r: "tty w = map Line pre @- (ev ## tty w')"
       "rejected shouldRetry s (map (normalize E) pre)"
       "case ev of
          ReadErr e \<Rightarrow> answer = '''' \<and> err = Some e \<and>
            s' = replay shouldRetry s (map (normalize E) pre)
        | Line line \<Rightarrow> answer = normalize E line \<and> err = None \<and>
            shouldRetry (normalize E line) (replay shouldRetry s (map (normalize E) pre)) =
              (False, s')"
    unfolding ask_post_def by auto
  show ?thesis
  proof (cases ev)
    case (Line line)
    with r have "tty w = map Line pre @- (Line line ## tty w') \<and>
               rejected shouldRetry s (map (normalize E) pre) \<and>
               answer = normalize E line \<and>
               shouldRetry answer (replay shouldRetry s (map (normalize E) pre)) = (False, s')"
      and "err = None" by simp_all
    then show ?thesis by (simp only: option.case) blast
  next
    case (ReadErr e)
    with r have "tty w = map Line pre @- (ReadErr e ## tty w') \<and>
                     rejected shouldRetry s (map (normalize E) pre) \<and>
                     s' = replay shouldRetry s (map (normalize E) pre)"
      and a: "answer = ''''" "err = Some e" by simp_all
    then have "\<exists>pre. tty w = map Line pre @- (ReadErr e ## tty w') \<and>
                     rejected shouldRetry s (map (normalize E) pre) \<and>
                     s' = replay shouldRetry s (map (normalize E) pre)" by blast
    with None a show ?thesis by simp
  qed
qed

text \<open>The user types \<^verbatim>\<open>maybe\<close> and then \<^verbatim>\<open>YES\<close> between spaces at a yes/no prompt; and the
  user types \<^verbatim>\<open>maybe\<close> and then closes the input.\<close>

theorem ask_returns_only_accepted_witness:
  "(\<exists>w'. ask env0 ''ok? '' '''' (Some confirm_shouldAskAgain) False
            (world0 (typed [''maybe'', '' YES ''])) = Some ((''yes'', None), True, w') \<and>
      (\<exists>pre line. typed [''maybe'', '' YES ''] = map Line pre @- (Line line ## tty w') \<and>
         rejected confirm_shouldAskAgain False (map (normalize env0) pre) \<and>
         ''yes'' = normalize env0 line \<and>
         confirm_shouldAskAgain ''yes''
           (replay confirm_shouldAskAgain False (map (normalize env0) pre)) = (False, True))) \<and>
   (\<exists>w'. ask env0 ''ok? '' '''' (Some confirm_shouldAskAgain) False
            (world0 (typed [''maybe''])) = Some (('''', Some ErrEOF), False, w') \<and>
      (\<exists>pre. typed [''maybe''] = map Line pre @- (ReadErr ErrEOF ## tty w') \<and>
         rejected confirm_shouldAskAgain False (map (normalize env0) pre) \<and>
         False = replay confirm_shouldAskAgain False (map (normalize env0) pre)))"
proof -
  have "\<exists>w'. ask env0 ''ok? '' '''' (Some confirm_shouldAskAgain) False
            (world0 (typed [''maybe'', '' YES ''])) = Some ((''yes'', None), True, w')"
    by (simp add: ask_def ask_impl_def world0_def typed_def ask_loop.simps
        confirm_shouldAskAgain_def normalize_eval)
  then obtain w1 where h1: "ask env0 ''ok? '' '''' (Some confirm_shouldAskAgain) False
            (world0 (typed [''maybe'', '' YES ''])) = Some ((''yes'', None), True, w1)" ..
  have "\<exists>w'. ask env0 ''ok? '' '''' (Some confirm_shouldAskAgain) False
            (world0 (typed [''maybe''])) = Some (('''', Some ErrEOF), False, w')"
    by (simp add: ask_def ask_impl_def world0_def typed_def ask_loop.simps
        confirm_shouldAskAgain_def normalize_eval)
  then obtain w2 where h2: "ask env0 ''ok? '' '''' (Some confirm_shouldAskAgain) False
            (world0 (typed [''maybe''])) = Some (('''', Some ErrEOF), False, w2)" ..
  have n: "shd (newex (world0 (typed [''maybe'']))) = None" by (simp add: world0_def)
  from ask_returns_only_accepted[OF h1[unfolded ask_def]]
  have 1: "\<exists>pre line. typed [''maybe'', '' YES ''] = map Line pre @- (Line line ## tty w1) \<and>
         rejected confirm_shouldAskAgain False (map (normalize env0) pre) \<and>
         ''yes'' = normalize env0 line \<and>
         confirm_shouldAskAgain ''yes''
           (replay confirm_shouldAskAgain False (map (normalize env0) pre)) = (False, True)"
    by (simp add: world0_def)
  from ask_returns_only_accepted[OF h2[unfolded ask_def]] n
  have 2: "\<exists>pre. typed [''maybe''] = map Line pre @- (ReadErr ErrEOF ## tty w2) \<and>
         rejected confirm_shouldAskAgain False (map (normalize env0) pre) \<and>
         False = replay confirm_shouldAskAgain False (map (normalize env0) pre)"
    by (simp add: world0_def)
  from h1 1 h2 2 show ?thesis by blast
qed

text \<open>
  C6, as the code has it. A read that returns an error ends the loop of \<^verbatim>\<open>_ask\<close> at once,
  whatever the callback and however many answers were rejected before, and \<^verbatim>\<open>_ask\<close>
  returns that error to its caller. \<^verbatim>\<open>gatherSecretKeyOrBunker\<close> drops the error of its
  secret prompt (\<^verbatim>\<open>sec, _ = ask(...)\<close>, line 55) and returns the error of line 71 instead.
\<close>

theorem read_error_propagation:
  "(shd (tty w) = ReadErr e \<longrightarrow>
      ask_loop E p s w =
        Some (('''', Some e), s, w\<lparr>tty := stl (tty w), trace := trace w @ [EvReadline]\<rparr>)) \<and>
   (shd (newex w) = None \<and> tty w = map Line pre @- (ReadErr e ## rest) \<and>
      (\<forall>l \<in> set pre. shouldRetry (normalize E l) s = (True, s)) \<longrightarrow>
      ask_impl E config msg defaultValue (Some shouldRetry) s w =
        Some (('''', Some e), s, prompted config defaultValue (Suc (length pre)) rest w)) \<and>
   (fst (lookupBunkerURL E c w) = '''' \<and>
      fst (lookupSec E c (snd (lookupBunkerURL E c w))) = '''' \<and>
      shd (newex w) = None \<and> tty w = map Line pre @- (ReadErr e ## rest) \<and>
      (\<forall>l \<in> set pre. fst (sec_shouldAskAgain E (normalize E l) False)) \<longrightarrow>
      map_option fst (gatherSecretKeyOrBunker E c w) =
        Some (None, '''', False, Some ErrCouldntGatherSecretKey))"
proof (intro conjI impI)
  assume "shd (tty w) = ReadErr e"
  then show "ask_loop E p s w =
        Some (('''', Some e), s, w\<lparr>tty := stl (tty w), trace := trace w @ [EvReadline]\<rparr>)"
    by (rule ask_loop_err)
next
  assume h: "shd (newex w) = None \<and> tty w = map Line pre @- (ReadErr e ## rest) \<and>
      (\<forall>l \<in> set pre. shouldRetry (normalize E l) s = (True, s))"
  then have rej: "\<forall>l \<in> set pre. shouldRetry (normalize E l) s = (True, s)" by simp
  from h show "ask_impl E config msg defaultValue (Some shouldRetry) s w =
        Some (('''', Some e), s, prompted config defaultValue (Suc (length pre)) rest w)"
    by (simp add: ask_impl_after_rejected[where f = shouldRetry and s = s, OF rej])
next
  assume h: "fst (lookupBunkerURL E c w) = '''' \<and>
      fst (lookupSec E c (snd (lookupBunkerURL E c w))) = '''' \<and>
      shd (newex w) = None \<and> tty w = map Line pre @- (ReadErr e ## rest) \<and>
      (\<forall>l \<in> set pre. fst (sec_shouldAskAgain E (normalize E l) False))"
  obtain w1 where w1: "lookupBunkerURL E c w = ('''', w1)"
    using h by (cases "lookupBunkerURL E c w") simp
  obtain w2 where w2: "lookupSec E c w1 = ('''', w2)"
    using h w1 by (cases "lookupSec E c w1") simp
  have f2: "shd (newex w2) = None" "tty w2 = map Line pre @- (ReadErr e ## rest)"
    using h lookupBunkerURL_fields(1,2)[of E c w] lookupSec_fields(1,2)[of E c w1] w1 w2
    by simp_all
  have rej: "\<forall>l \<in> set pre. sec_shouldAskAgain E (normalize E l) False = (True, False)"
    using h by (simp add: sec_shouldAskAgain_rejected)
  have "ask E ''input secret key (hex, nsec or ncryptsec): '' '''' (Some (sec_shouldAskAgain E))
          False w2 =
        Some (('''', Some e), False,
              prompted (plainConfig ''input secret key (hex, nsec or ncryptsec): '') ''''
                (Suc (length pre)) rest w2)"
    using f2
    by (simp add: ask_def
          ask_impl_after_rejected[where f = "sec_shouldAskAgain E" and s = False, OF rej])
  then show "map_option fst (gatherSecretKeyOrBunker E c w) =
        Some (None, '''', False, Some ErrCouldntGatherSecretKey)"
    by (simp add: gatherSecretKeyOrBunker_def gatherSec_def w1 w2)
qed

text \<open>The user interrupts the secret prompt, at once and after the answer \<^verbatim>\<open>what\<close>.\<close>

theorem read_error_propagation_witness:
  "ask_loop env0 (Some confirm_shouldAskAgain) False (world0 (ReadErr ErrInterrupt ## typed [])) =
     Some (('''', Some ErrInterrupt), False,
           (world0 (ReadErr ErrInterrupt ## typed []))\<lparr>tty := typed [], trace := [EvReadline]\<rparr>) \<and>
   map_option fst (ask_impl env0 (plainConfig ''ok? '') ''ok? '' '''' (Some confirm_shouldAskAgain) False
       (world0 (Line ''what'' ## ReadErr ErrInterrupt ## typed []))) =
     Some ('''', Some ErrInterrupt) \<and>
   map_option fst (gatherSecretKeyOrBunker env0 flags0
       (world0 (Line ''what'' ## ReadErr ErrInterrupt ## typed []))) =
     Some (None, '''', False, Some ErrCouldntGatherSecretKey)"
proof -
  have n: "normalize env0 ''what'' = ''what''" by (simp add: normalize_eval)
  note inst = read_error_propagation[where e = ErrInterrupt and rest = "typed []"]
  from inst[where w = "world0 (ReadErr ErrInterrupt ## typed [])"
      and p = "Some confirm_shouldAskAgain" and s = False, THEN conjunct1]
  have 1: "ask_loop env0 (Some confirm_shouldAskAgain) False (world0 (ReadErr ErrInterrupt ## typed [])) =
     Some (('''', Some ErrInterrupt), False,
           (world0 (ReadErr ErrInterrupt ## typed []))\<lparr>tty := typed [], trace := [EvReadline]\<rparr>)"
    by (simp add: world0_def)
  from inst[where w = "world0 (Line ''what'' ## ReadErr ErrInterrupt ## typed [])"
      and pre = "[''what'']" and shouldRetry = confirm_shouldAskAgain and s = False
      and config = "plainConfig ''ok? ''" and msg = "''ok? ''" and defaultValue = "''''",
      THEN conjunct2, THEN conjunct1]
  have 2: "map_option fst (ask_impl env0 (plainConfig ''ok? '') ''ok? '' '''' (Some confirm_shouldAskAgain) False
       (world0 (Line ''what'' ## ReadErr ErrInterrupt ## typed []))) =
     Some ('''', Some ErrInterrupt)"
    by (simp add: world0_def n confirm_shouldAskAgain_def)
  from inst[where w = "world0 (Line ''what'' ## ReadErr ErrInterrupt ## typed [])"
      and pre = "[''what'']" and E = env0 and c = flags0, THEN conjunct2, THEN conjunct2]
  have 3: "map_option fst (gatherSecretKeyOrBunker env0 flags0
       (world0 (Line ''what'' ## ReadErr ErrInterrupt ## typed []))) =
     Some (None, '''', False, Some ErrCouldntGatherSecretKey)"
    by (simp add: world0_def n lookupBunkerURL_def lookupSec_def git_def env0_def flags0_def
        sec_shouldAskAgain_def HasPrefix_def isHex64_def normalize_eval)
  from 1 2 3 show ?thesis by blast
qed

text \<open>C6 as stated fails: the interrupt at the secret prompt does not come out of
  \<^verbatim>\<open>gatherSecretKeyOrBunker\<close>; the error of line 71 does.\<close>

theorem interrupt_at_secret_prompt_replaced:
  "map_option fst (gatherSecretKeyOrBunker env0 flags0 (world0 (ReadErr ErrInterrupt ## typed []))) =
     Some (None, '''', False, Some ErrCouldntGatherSecretKey) \<and>
   map_option (snd \<circ> snd \<circ> snd \<circ> fst)
     (gatherSecretKeyOrBunker env0 flags0 (world0 (ReadErr ErrInterrupt ## typed []))) \<noteq>
     Some (Some ErrInterrupt)"
  by (simp add: run_eval)

text \<open>
  C7. The claim is that an address of the remote signer found in the stored setting, when
  the flag \<^verbatim>\<open>--connect\<close> is not given, is used to connect. The code does not read the stored
  setting: line 37 passes the (empty) address as a further argument, and
  \<^verbatim>\<open>git config --local str.bunker ""\<close> sets the name to the empty string and prints nothing
  (line 50 reads \<^verbatim>\<open>str.secretkey\<close> with the name alone). With \<^verbatim>\<open>bunker://signer\<close> stored, no
  flag, and a key typed at the prompt that the user declines to store: no call of
  \<^verbatim>\<open>nip46.ConnectBunker\<close> is made, the run returns the typed key, and the stored address is
  empty afterwards.
\<close>

theorem stored_bunker_not_read:
  "storedSetting ''str.bunker''
     ((world0 (typed [hexKey, ''n'']))\<lparr>gitst := [''str.bunker'' \<mapsto> ''bunker://signer'']\<rparr>) =
     Some ''bunker://signer'' \<and>
   map_option fst (gatherSecretKeyOrBunker env0 flags0
     ((world0 (typed [hexKey, ''n'']))\<lparr>gitst := [''str.bunker'' \<mapsto> ''bunker://signer'']\<rparr>)) =
     Some (None, hexKey, False, None) \<and>
   map_option (list_ex isConnect \<circ> trace \<circ> snd) (gatherSecretKeyOrBunker env0 flags0
     ((world0 (typed [hexKey, ''n'']))\<lparr>gitst := [''str.bunker'' \<mapsto> ''bunker://signer'']\<rparr>)) =
     Some False \<and>
   map_option (storedSetting ''str.bunker'' \<circ> snd) (gatherSecretKeyOrBunker env0 flags0
     ((world0 (typed [hexKey, ''n'']))\<lparr>gitst := [''str.bunker'' \<mapsto> ''bunker://signer'']\<rparr>)) =
     Some (Some '''')"
  by (simp add: run_eval storedSetting_def)

text \<open>
  C8. When no address of a remote signer is found and the secret string that lines 48 to 73
  produce starts with \<^verbatim>\<open>ncryptsec1\<close>, \<^verbatim>\<open>gatherSecretKeyOrBunker\<close> stores that string whatever
  the flags and without asking: the last thing it does is to run
  \<^verbatim>\<open>git config --local str.secretkey\<close> with that string, and the state it leaves \<^verbatim>\<open>git\<close> in is
  the one this command produces. It returns the string unchanged with the flag
  \<^verbatim>\<open>encrypted\<close>. In the whole run \<^verbatim>\<open>nip49.Decrypt\<close> is not called, and nothing but that string
  is written to the stored secret.
\<close>

theorem encrypted_secret_stored:
  assumes "fst (lookupBunkerURL E c w) = ''''"
    and "gatherSec E c (snd (lookupBunkerURL E c w)) = Some (Inr (sec, askToStore), w2)"
    and "HasPrefix sec ''ncryptsec1''"
  shows "\<exists>w' evs.
           gatherSecretKeyOrBunker E c w = Some ((None, sec, True, None), w') \<and>
           gitst w' =
             snd (exec_git E [''config'', ''--local'', ''str.secretkey'', sec] (gitst w2)) \<and>
           trace w' = trace w2 @ [EvGit [''config'', ''--local'', ''str.secretkey'', sec]] \<and>
           trace w' = trace w @ evs \<and> decryptCalls evs = 0 \<and>
           filter isStoreSecret evs = [EvGit [''config'', ''--local'', ''str.secretkey'', sec]]"
proof -
  let ?set = "EvGit [''config'', ''--local'', ''str.secretkey'', sec]"
  let ?w' = "snd (git E [''config'', ''--local'', ''str.secretkey'', sec] w2)"
  obtain w1 where w1: "lookupBunkerURL E c w = ('''', w1)"
    using assms(1) by (cases "lookupBunkerURL E c w") simp
  let ?b = "if String_connect c = ''''
            then [EvGit [''config'', ''--local'', ''str.bunker'', '''']] else []"
  have t1: "trace w1 = trace w @ ?b"
    using lookupBunkerURL_fields(4)[of E c w] w1 by simp
  from assms(2) w1 have gs: "gatherSec E c w1 = Some (Inr (sec, askToStore), w2)" by simp
  from gatherSec_trace[OF gs] obtain evs where
    evs: "trace w2 = trace w1 @ evs" "\<not> list_ex isStoreSecret evs" "decryptCalls evs = 0"
    by blast
  have run: "gatherSecretKeyOrBunker E c w = Some ((None, sec, True, None), ?w')"
    using w1 gs assms(3) by (simp add: gatherSecretKeyOrBunker_def finishSec_def)
  have t: "trace ?w' = trace w @ (?b @ evs @ [?set])" using t1 evs(1) by simp
  have "filter isStoreSecret evs = []"
    using evs(2) by (simp add: list_ex_iff filter_empty_conv)
  then have "filter isStoreSecret (?b @ evs @ [?set]) = [?set]" by simp
  moreover have "decryptCalls (?b @ evs @ [?set]) = 0" using evs(3) by simp
  moreover have "trace ?w' = trace w2 @ [?set]" by simp
  moreover have "gitst ?w' =
      snd (exec_git E [''config'', ''--local'', ''str.secretkey'', sec] (gitst w2))" by simp
  ultimately show ?thesis using run t by blast
qed

text \<open>The user types an encrypted key at the secret prompt; the flag \<^verbatim>\<open>--store-sec\<close> is
  not set.\<close>

theorem encrypted_secret_stored_witness:
  "map_option fst (gatherSecretKeyOrBunker env0 flags0 (world0 (typed [''ncryptsec1qgg9947rl''])))
     = Some (None, ''ncryptsec1qgg9947rl'', True, None) \<and>
   map_option (storedSetting ''str.secretkey'' \<circ> snd)
     (gatherSecretKeyOrBunker env0 flags0 (world0 (typed [''ncryptsec1qgg9947rl''])))
     = Some (Some ''ncryptsec1qgg9947rl'') \<and>
   map_option (filter isStoreSecret \<circ> trace \<circ> snd)
     (gatherSecretKeyOrBunker env0 flags0 (world0 (typed [''ncryptsec1qgg9947rl''])))
     = Some [EvGit [''config'', ''--local'', ''str.secretkey'', ''ncryptsec1qgg9947rl'']] \<and>
   map_option (decryptCalls \<circ> trace \<circ> snd)
     (gatherSecretKeyOrBunker env0 flags0 (world0 (typed [''ncryptsec1qgg9947rl'']))) = Some 0"
proof -
  have 1: "fst (lookupBunkerURL env0 flags0 (world0 (typed [''ncryptsec1qgg9947rl'']))) = ''''"
    by (simp add: lookupBunkerURL_def git_def env0_def flags0_def world0_def normalize_eval)
  have "\<exists>w2. gatherSec env0 flags0
        (snd (lookupBunkerURL env0 flags0 (world0 (typed [''ncryptsec1qgg9947rl''])))) =
      Some (Inr (''ncryptsec1qgg9947rl'', False), w2) \<and>
      gitst w2 = [''str.bunker'' \<mapsto> '''']"
    by (simp add: run_eval)
  then obtain w2 where 2: "gatherSec env0 flags0
        (snd (lookupBunkerURL env0 flags0 (world0 (typed [''ncryptsec1qgg9947rl''])))) =
      Some (Inr (''ncryptsec1qgg9947rl'', False), w2)"
    and g: "gitst w2 = [''str.bunker'' \<mapsto> '''']" by blast
  have 3: "HasPrefix ''ncryptsec1qgg9947rl'' ''ncryptsec1''" by (simp add: HasPrefix_def)
  have x: "exec_git env0 = git_config" by (simp add: env0_def)
  from encrypted_secret_stored[OF 1 2 3] show ?thesis
    by (auto simp: world0_def storedSetting_def g x)
qed

text \<open>
  C9. After any number (less than three) of attempts whose decryption failed, a read of the
  passphrase that returns an error makes \<^verbatim>\<open>promptDecrypt\<close> return exactly that error, with
  an empty key. The read is the last thing it did, and \<^verbatim>\<open>nip49.Decrypt\<close> was called once
  for each earlier attempt only: not for the attempt of the failed read, which is also
  never reported as the error of line 213, even when it is the third.
\<close>

theorem promptDecrypt_read_error:
  assumes "length pws < 3"
    and "\<forall>pw \<in> set pws. isl (nip49_Decrypt E blob (normalize E pw))"
    and "\<forall>j \<le> length pws. newex w !! j = None"
    and "tty w = map Line pws @- (ReadErr e ## rest)"
  shows "\<exists>w' evs. promptDecrypt E blob w = Some (('''', Some e), w') \<and> tty w' = rest \<and>
           trace w' = trace w @ evs @ [EvReadline] \<and> decryptCalls evs = length pws"
  unfolding promptDecrypt_def
  using assms by (intro promptDecrypt_loop_read_error) simp_all

text \<open>Two wrong passphrases, then the user interrupts the third prompt.\<close>

theorem promptDecrypt_read_error_witness:
  "\<exists>w' evs. promptDecrypt env0 ''ncryptsec1blob''
       (world0 (Line ''a'' ## Line ''b'' ## ReadErr ErrInterrupt ## typed [''hunter2''])) =
         Some (('''', Some ErrInterrupt), w') \<and>
       tty w' = typed [''hunter2''] \<and> trace w' = evs @ [EvReadline] \<and> decryptCalls evs = 2"
proof -
  have 1: "\<forall>pw \<in> set [''a'', ''b'']. isl (nip49_Decrypt env0 ''ncryptsec1blob'' (normalize env0 pw))"
    by (simp add: env0_def normalize_eval)
  have 2: "\<forall>j \<le> length [''a'', ''b''].
      newex (world0 (Line ''a'' ## Line ''b'' ## ReadErr ErrInterrupt ## typed [''hunter2''])) !! j = None"
    by (simp add: world0_def)
  have 3: "tty (world0 (Line ''a'' ## Line ''b'' ## ReadErr ErrInterrupt ## typed [''hunter2''])) =
      map Line [''a'', ''b''] @- (ReadErr ErrInterrupt ## typed [''hunter2''])"
    by (simp add: world0_def)
  from promptDecrypt_read_error[OF _ 1 2 3] show ?thesis
    by (simp add: world0_def numeral_2_eq_2)
qed

text \<open>
  C10. \<^verbatim>\<open>confirm\<close>, after any number of answers other than y, yes, n and no (each read
  again), returns whether the first answer among those four is y or yes; an answer is the
  typed line as \<^verbatim>\<open>strings.ToLower\<close> and then \<^verbatim>\<open>strings.TrimSpace\<close> leave it, whatever these
  two do to it. When the read fails instead, or \<^verbatim>\<open>readline.NewEx\<close> fails, the error is
  dropped and \<^verbatim>\<open>confirm\<close> returns false; a failed read leaves the same result and the same
  world as an answer n or no in its place.
\<close>

theorem confirm_spec:
  assumes "\<forall>l \<in> set pre. normalize E l \<notin> {''y'', ''yes'', ''n'', ''no''}"
  shows
    "(shd (newex w) = None \<and> tty w = map Line pre @- (Line line ## rest) \<and>
        normalize E line \<in> {''y'', ''yes'', ''n'', ''no''} \<longrightarrow>
      confirm E msg w =
        Some (normalize E line \<in> {''y'', ''yes''},
              prompted (plainConfig (msg @ ''(y/n) '')) '''' (Suc (length pre)) rest w)) \<and>
     (shd (newex w) = None \<and> tty w = map Line pre @- (ReadErr e ## rest) \<longrightarrow>
      confirm E msg w =
        Some (False, prompted (plainConfig (msg @ ''(y/n) '')) '''' (Suc (length pre)) rest w)) \<and>
     (shd (newex w) = None \<and> normalize E decline \<in> {''n'', ''no''} \<longrightarrow>
      confirm E msg (w\<lparr>tty := map Line pre @- (ReadErr e ## rest)\<rparr>) =
      confirm E msg (w\<lparr>tty := map Line pre @- (Line decline ## rest)\<rparr>)) \<and>
     (shd (newex w) = Some e \<longrightarrow>
      confirm E msg w =
        Some (False, w\<lparr>newex := stl (newex w),
                        trace := trace w @ [EvNewEx (plainConfig (msg @ ''(y/n) ''))]\<rparr>))"
proof -
  have rej: "\<forall>l \<in> set pre. confirm_shouldAskAgain (normalize E l) False = (True, False)"
    using assms by (simp add: confirm_shouldAskAgain_cases)
  have run: "confirm E msg v =
      (case ev of
         ReadErr e \<Rightarrow> Some (False, prompted (plainConfig (msg @ ''(y/n) '')) '''' (Suc (length pre)) rest v)
       | Line line \<Rightarrow>
           Some (normalize E line \<in> {''y'', ''yes''},
                 prompted (plainConfig (msg @ ''(y/n) '')) '''' (Suc (length pre)) rest v))"
    if "shd (newex v) = None" and "tty v = map Line pre @- (ev ## rest)"
      and "case ev of ReadErr e \<Rightarrow> True | Line line \<Rightarrow> normalize E line \<in> {''y'', ''yes'', ''n'', ''no''}"
    for v :: "'a world" and ev
    using that
    by (auto simp: confirm_def ask_def
          ask_impl_after_rejected[where f = confirm_shouldAskAgain and s = False, OF rej]
          confirm_shouldAskAgain_cases
        split: rl_event.splits)
  have 1: "confirm E msg w =
        Some (normalize E line \<in> {''y'', ''yes''},
              prompted (plainConfig (msg @ ''(y/n) '')) '''' (Suc (length pre)) rest w)"
    if "shd (newex w) = None" "tty w = map Line pre @- (Line line ## rest)"
       "normalize E line \<in> {''y'', ''yes'', ''n'', ''no''}"
    using run[of w "Line line"] that by simp
  have 2: "confirm E msg w =
        Some (False, prompted (plainConfig (msg @ ''(y/n) '')) '''' (Suc (length pre)) rest w)"
    if "shd (newex w) = None" "tty w = map Line pre @- (ReadErr e ## rest)"
    using run[of w "ReadErr e"] that by simp
  have 3: "confirm E msg (w\<lparr>tty := map Line pre @- (ReadErr e ## rest)\<rparr>) =
      confirm E msg (w\<lparr>tty := map Line pre @- (Line decline ## rest)\<rparr>)"
    if "shd (newex w) = None" "normalize E decline \<in> {''n'', ''no''}"
    using run[of "w\<lparr>tty := map Line pre @- (ReadErr e ## rest)\<rparr>" "ReadErr e"]
          run[of "w\<lparr>tty := map Line pre @- (Line decline ## rest)\<rparr>" "Line decline"] that
    by (auto simp: prompted_def)
  have 4: "confirm E msg w =
        Some (False, w\<lparr>newex := stl (newex w),
                        trace := trace w @ [EvNewEx (plainConfig (msg @ ''(y/n) ''))]\<rparr>)"
    if "shd (newex w) = Some e"
    using that by (simp add: confirm_def ask_def ask_impl_fail)
  from 1 2 3 4 show ?thesis by blast
qed

text \<open>The user answers \<^verbatim>\<open>maybe\<close> and then \<^verbatim>\<open>YES\<close>; answers \<^verbatim>\<open>maybe\<close> and then interrupts;
  and the terminal cannot be opened.\<close>

theorem confirm_spec_witness:
  "map_option fst (confirm env0 ''store the secret key on git config? ''
       (world0 (typed [''maybe'', '' YES '']))) = Some True \<and>
   map_option fst (confirm env0 ''store the secret key on git config? ''
       (world0 (Line ''maybe'' ## ReadErr ErrInterrupt ## typed []))) = Some False \<and>
   confirm env0 ''store the secret key on git config? ''
       (world0 (Line ''maybe'' ## ReadErr ErrInterrupt ## typed [])) =
   confirm env0 ''store the secret key on git config? ''
       (world0 (Line ''maybe'' ## Line ''n'' ## typed [])) \<and>
   map_option fst (confirm env0 ''store the secret key on git config? ''
       ((world0 (typed [''y'']))\<lparr>newex := sconst (Some (ErrExternal ''no terminal''))\<rparr>)) = Some False"
proof -
  have rej: "\<forall>l \<in> set [''maybe'']. normalize env0 l \<notin> {''y'', ''yes'', ''n'', ''no''}"
    by (simp add: normalize_eval)
  have yes: "normalize env0 '' YES '' = ''yes''" and no: "normalize env0 ''n'' = ''n''"
    by (simp_all add: normalize_eval)
  note spec = confirm_spec[OF rej, where msg = "''store the secret key on git config? ''"
      and rest = "typed []"]
  from spec[where w = "world0 (typed [''maybe'', '' YES ''])" and line = "'' YES ''"]
  have 1: "map_option fst (confirm env0 ''store the secret key on git config? ''
       (world0 (typed [''maybe'', '' YES '']))) = Some True"
    by (simp add: yes world0_def typed_def)
  from spec[where w = "world0 (Line ''maybe'' ## ReadErr ErrInterrupt ## typed [])"
      and e = ErrInterrupt]
  have 2: "map_option fst (confirm env0 ''store the secret key on git config? ''
       (world0 (Line ''maybe'' ## ReadErr ErrInterrupt ## typed []))) = Some False"
    by (simp add: world0_def)
  from spec[where w = "world0 (typed [])" and e = ErrInterrupt and decline = "''n''"] no
  have 3: "confirm env0 ''store the secret key on git config? ''
       (world0 (Line ''maybe'' ## ReadErr ErrInterrupt ## typed [])) =
   confirm env0 ''store the secret key on git config? ''
       (world0 (Line ''maybe'' ## Line ''n'' ## typed []))"
    by (simp add: world0_def)
  from spec[where w = "(world0 (typed [''y'']))\<lparr>newex := sconst (Some (ErrExternal ''no terminal''))\<rparr>"
      and e = "ErrExternal ''no terminal''"]
  have 4: "map_option fst (confirm env0 ''store the secret key on git config? ''
       ((world0 (typed [''y'']))\<lparr>newex := sconst (Some (ErrExternal ''no terminal''))\<rparr>)) = Some False"
    by (simp add: world0_def)
  from 1 2 3 4 show ?thesis by blast
qed

end
